theory Spec2Isabelle
  imports Complex_Main "HOL-Library.AList" "HOL-Library.Log_Nat"
begin

section \<open>Scheduling backend: data model\<close>

text \<open>
  A shallow embedding of \<^verbatim>\<open>backend/app.py\<close>: the relational store is a record of row
  lists, a psycopg2 connection is a pair of the committed and the working copy of the
  store, a Flask handler is a function from the store and the request to the store after
  the request and the response, a Python exception is a value.

  Timestamps are Python \<^verbatim>\<open>datetime\<close> values in UTC, counted in microseconds since
  1970-01-01T00:00:00; \<^verbatim>\<open>datetime.now\<close>, \<^verbatim>\<open>datetime.strptime\<close> and the CP-SAT solver
  are parameters of the handlers that use them. A Python float is the rational it stands
  for, and each float operation rounds to the nearest double. The \<^verbatim>\<open>status\<close> column holds
  the strings the handlers write, with \<^verbatim>\<open>In Progress\<close> in two words.
\<close>

type_synonym timestamp = int

datatype py_error = ValueError | TypeError | AttributeError | OverflowError | ProgrammingError

text \<open>A decoded JSON value; the keys of an object are distinct, as those of a dict are.\<close>

datatype jval =
    JNull
  | JBool bool
  | JInt int
  | JNum rat
  | JStr string
  | JArr "jval list"
  | JObj "(string \<times> jval) list"

text \<open>Python truthiness of a decoded JSON value, as \<^verbatim>\<open>not x\<close> and \<^verbatim>\<open>if x:\<close> test it.\<close>

fun truthy :: "jval \<Rightarrow> bool" where
  "truthy JNull = False"
| "truthy (JBool b) = b"
| "truthy (JInt i) = (i \<noteq> 0)"
| "truthy (JNum q) = (q \<noteq> 0)"
| "truthy (JStr s) = (s \<noteq> [])"
| "truthy (JArr xs) = (xs \<noteq> [])"
| "truthy (JObj kvs) = (kvs \<noteq> [])"

text \<open>\<^verbatim>\<open>data.get(key)\<close> is \<open>map_of data key\<close>; a missing key gives \<open>None\<close>, which is falsy.\<close>

fun truthy_opt :: "jval option \<Rightarrow> bool" where
  "truthy_opt None = False"
| "truthy_opt (Some v) = truthy v"

record machine_row =
  machine_id :: nat
  machine_name :: string
  capacity :: int

record task_row =
  task_id :: nat
  job_id :: int
  task_name :: string
  duration_hours :: rat
  required_machine_id :: nat
  status :: string
  start_time :: "timestamp option"
  end_time :: "timestamp option"

record db =
  machines :: "machine_row list"
  tasks :: "task_row list"
  precedences :: "(nat \<times> nat) list"

subsection \<open>Connections and transactions\<close>

text \<open>
  A statement executed on a cursor changes the working copy; \<^verbatim>\<open>commit\<close> makes it the
  committed one, \<^verbatim>\<open>rollback\<close> discards it, and \<^verbatim>\<open>close\<close> leaves the committed store behind.
\<close>

record conn =
  committed :: db
  working :: db

definition connect :: "db \<Rightarrow> conn" where
  "connect d = \<lparr>committed = d, working = d\<rparr>"

text \<open>\<^verbatim>\<open>get_db_connection\<close> returns \<^verbatim>\<open>None\<close> when the store cannot be reached.\<close>

definition get_db_connection :: "bool \<Rightarrow> db \<Rightarrow> conn option" where
  "get_db_connection reachable d = (if reachable then Some (connect d) else None)"

definition commit :: "conn \<Rightarrow> conn" where
  "commit c = c\<lparr>committed := working c\<rparr>"

definition rollback :: "conn \<Rightarrow> conn" where
  "rollback c = c\<lparr>working := committed c\<rparr>"

definition close :: "conn \<Rightarrow> db" where
  "close c = committed c"

record response =
  code :: nat
  status_field :: "string option"
  makespan_minutes :: "int option"

definition reply :: "nat \<Rightarrow> response" where
  "reply n = \<lparr>code = n, status_field = None, makespan_minutes = None\<rparr>"

subsection \<open>Python floats\<close>

text \<open>
  A double has 53 significant bits, and below \<open>2 powi (- 1022)\<close> the spacing stays
  \<open>2 powi (- 1074)\<close>. \<open>float_exponent x\<close> is the integer \<open>e\<close> with
  \<open>2 powi e \<le> \<bar>x\<bar> < 2 powi (e + 1)\<close>, and \<open>fl64 x\<close> is the double nearest to \<open>x\<close>, ties going
  to the even significand: the value of \<^verbatim>\<open>float(x)\<close> for a number \<open>x\<close>, and of a product of
  doubles when \<open>x\<close> is the exact product. Python's floats end at about \<open>1.8e308\<close>, where
  a product is infinite; \<open>fl64\<close> has no infinity and rounds there as below.
\<close>

definition round_half_even :: "rat \<Rightarrow> int" where
  "round_half_even q =
     (let f = \<lfloor>q\<rfloor>; r = q - of_int f in
      if r < 1 / 2 then f
      else if 1 / 2 < r then f + 1
      else if even f then f else f + 1)"

definition float_exponent :: "rat \<Rightarrow> int" where
  "float_exponent x =
     (let (p, q) = quotient_of \<bar>x\<bar>; e = bitlen p - bitlen q
      in if 2 powi e \<le> \<bar>x\<bar> then e else e - 1)"

definition fl64 :: "rat \<Rightarrow> rat" where
  "fl64 x =
     (if x = 0 then 0
      else
        (let ulp = 2 powi (max (float_exponent x) (- 1022) - 52)
         in of_int (round_half_even (x / ulp)) * ulp))"

text \<open>\<^verbatim>\<open>int(x)\<close> on a number truncates towards zero.\<close>

definition py_int :: "rat \<Rightarrow> int" where
  "py_int q = (if 0 \<le> q then \<lfloor>q\<rfloor> else \<lceil>q\<rceil>)"

subsection \<open>Python datetime arithmetic\<close>

definition datetime_min :: timestamp where
  "datetime_min = - 62135596800000000"

definition datetime_max :: timestamp where
  "datetime_max = 253402300799999999"

definition timedelta_min :: int where
  "timedelta_min = - 86399999913600000000"

definition timedelta_max :: int where
  "timedelta_max = 86399999999999999999"

text \<open>\<^verbatim>\<open>t.replace(second=0, microsecond=0)\<close>\<close>

definition round_to_minute :: "timestamp \<Rightarrow> timestamp" where
  "round_to_minute t = t - t mod 60000000"

text \<open>
  \<^verbatim>\<open>timedelta(hours=h)\<close> and \<^verbatim>\<open>timedelta(minutes=m)\<close>, in microseconds; a timedelta
  beyond 999999999 days raises OverflowError. For the hours, an integer or a double,
  \<^verbatim>\<open>timedelta\<close> takes the whole hours exactly, multiplies the fraction of an hour by the
  microseconds of an hour as doubles, and rounds the sum to the nearest microsecond, ties
  to even.
\<close>

definition timedelta_hours :: "rat \<Rightarrow> py_error + int" where
  "timedelta_hours h =
     (let intpart = py_int h;
          fracpart = h - of_int intpart;
          us = round_half_even (of_int intpart * 3600000000 + fl64 (3600000000 * fracpart))
      in if timedelta_min \<le> us \<and> us \<le> timedelta_max then Inr us else Inl OverflowError)"

definition timedelta_minutes :: "int \<Rightarrow> py_error + int" where
  "timedelta_minutes m =
     (let us = m * 60000000 in
      if timedelta_min \<le> us \<and> us \<le> timedelta_max then Inr us else Inl OverflowError)"

text \<open>\<^verbatim>\<open>t + delta\<close> on a datetime raises OverflowError outside years 1 to 9999.\<close>

definition datetime_add :: "timestamp \<Rightarrow> int \<Rightarrow> py_error + timestamp" where
  "datetime_add t delta =
     (if datetime_min \<le> t + delta \<and> t + delta \<le> datetime_max then Inr (t + delta)
      else Inl OverflowError)"

section \<open>The Sequential Estimator\<close>

text \<open>SQL \<^verbatim>\<open>MAX\<close> over a column: NULLs are ignored, and no value at all gives NULL.\<close>

fun sql_max :: "int option list \<Rightarrow> int option" where
  "sql_max [] = None"
| "sql_max (None # xs) = sql_max xs"
| "sql_max (Some x # xs) = (case sql_max xs of None \<Rightarrow> Some x | Some y \<Rightarrow> Some (max x y))"

definition calculate_sequential_schedule ::
  "timestamp \<Rightarrow> conn \<Rightarrow> nat \<Rightarrow> rat \<Rightarrow> py_error + (timestamp \<times> timestamp)" where
  "calculate_sequential_schedule now c m_id dur =
     (let latest_end_time_result =
            sql_max (map end_time
              (filter (\<lambda>t. required_machine_id t = m_id) (tasks (working c))));
          start = (case latest_end_time_result of Some t \<Rightarrow> t | None \<Rightarrow> now);
          start = round_to_minute start
      in case timedelta_hours dur of
           Inl e \<Rightarrow> Inl e
         | Inr duration_delta \<Rightarrow>
             (case datetime_add start duration_delta of
                Inl e \<Rightarrow> Inl e
              | Inr end_t \<Rightarrow> Inr (start, end_t)))"

section \<open>The optimizer\<close>

subsection \<open>Python dictionaries\<close>

text \<open>
  A dictionary is an association list in insertion order; \<^verbatim>\<open>d[k] = v\<close> is
  \<open>AList.update k v d\<close> (it replaces the value of a key already there and appends a new
  key), \<^verbatim>\<open>k in d\<close> is \<open>map_of d k \<noteq> None\<close>. A dict comprehension stores row after row.
\<close>

definition dict_of :: "('r \<Rightarrow> 'k) \<Rightarrow> ('r \<Rightarrow> 'v) \<Rightarrow> 'r list \<Rightarrow> ('k \<times> 'v) list" where
  "dict_of key val rows = fold (\<lambda>r d. AList.update (key r) (val r) d) rows []"

subsection \<open>The Problem Assembler\<close>

record task_data =
  data_job_id :: int
  data_duration :: rat
  data_machine_id :: nat

text \<open>The three queries of \<^verbatim>\<open>fetch_scheduling_data\<close>, then the function itself.\<close>

definition select_machines :: "conn \<Rightarrow> machine_row list" where
  "select_machines c = sort_key machine_id (machines (working c))"

definition select_tasks :: "conn \<Rightarrow> task_row list" where
  "select_tasks c =
     sort_key task_id
       (filter (\<lambda>t. status t \<noteq> ''Completed'' \<and> status t \<noteq> ''Scheduled'')
          (tasks (working c)))"

definition select_precedences :: "conn \<Rightarrow> (nat \<times> nat) list" where
  "select_precedences c = precedences (working c)"

definition task_data_of :: "task_row \<Rightarrow> task_data" where
  "task_data_of row =
     \<lparr>data_job_id = job_id row, data_duration = duration_hours row,
      data_machine_id = required_machine_id row\<rparr>"

definition fetch_scheduling_data ::
  "conn \<Rightarrow> (nat \<times> int) list \<times> (nat \<times> task_data) list \<times> (nat \<times> nat) list" where
  "fetch_scheduling_data c =
     (let machines_d = dict_of machine_id capacity (select_machines c);
          tasks_d = dict_of task_id task_data_of (select_tasks c);
          precedences_l = select_precedences c
      in (machines_d, tasks_d, precedences_l))"

subsection \<open>The constraint model\<close>

text \<open>
  What the handler builds through \<^verbatim>\<open>cp_model.CpModel\<close>: integer variables with their
  bounds, the constraints in the order they are added, and the objective.
\<close>

datatype var = StartVar nat | EndVar nat | MaxEndTime

type_synonym interval = "var \<times> int \<times> var"

datatype constr =
    Interval var int var
  | GreaterOrEqual var var
  | NoOverlap "interval list"
  | MaxEquality var "var list"

record cp_model =
  int_vars :: "(var \<times> int \<times> int) list"
  constraints :: "constr list"
  objective :: "var option"

definition CpModel :: cp_model where
  "CpModel = \<lparr>int_vars = [], constraints = [], objective = None\<rparr>"

definition NewIntVar :: "int \<Rightarrow> int \<Rightarrow> var \<Rightarrow> cp_model \<Rightarrow> cp_model" where
  "NewIntVar lb ub v m = m\<lparr>int_vars := int_vars m @ [(v, lb, ub)]\<rparr>"

definition NewIntervalVar :: "var \<Rightarrow> int \<Rightarrow> var \<Rightarrow> cp_model \<Rightarrow> cp_model" where
  "NewIntervalVar s d e m = m\<lparr>constraints := constraints m @ [Interval s d e]\<rparr>"

definition Add :: "constr \<Rightarrow> cp_model \<Rightarrow> cp_model" where
  "Add ct m = m\<lparr>constraints := constraints m @ [ct]\<rparr>"

definition AddNoOverlap :: "interval list \<Rightarrow> cp_model \<Rightarrow> cp_model" where
  "AddNoOverlap ivs m = m\<lparr>constraints := constraints m @ [NoOverlap ivs]\<rparr>"

definition AddMaxEquality :: "var \<Rightarrow> var list \<Rightarrow> cp_model \<Rightarrow> cp_model" where
  "AddMaxEquality t vs m = m\<lparr>constraints := constraints m @ [MaxEquality t vs]\<rparr>"

definition Minimize :: "var \<Rightarrow> cp_model \<Rightarrow> cp_model" where
  "Minimize v m = m\<lparr>objective := Some v\<rparr>"

text \<open>
  The meaning of the constraints, for an assignment of integers to the variables: an
  interval has a size that is not negative and ends at its start plus its size; intervals
  under a no-overlap constraint are pairwise disjoint, one ending at or before the start
  of the other.
\<close>

fun disjoint_from :: "(var \<Rightarrow> int) \<Rightarrow> interval \<Rightarrow> interval list \<Rightarrow> bool" where
  "disjoint_from sol iv [] = True"
| "disjoint_from sol (s, d, e) ((s', d', e') # rest) =
     ((sol e \<le> sol s' \<or> sol e' \<le> sol s) \<and> disjoint_from sol (s, d, e) rest)"

fun no_overlap :: "(var \<Rightarrow> int) \<Rightarrow> interval list \<Rightarrow> bool" where
  "no_overlap sol [] = True"
| "no_overlap sol (iv # rest) = (disjoint_from sol iv rest \<and> no_overlap sol rest)"

fun holds :: "(var \<Rightarrow> int) \<Rightarrow> constr \<Rightarrow> bool" where
  "holds sol (Interval s d e) = (0 \<le> d \<and> sol s + d = sol e)"
| "holds sol (GreaterOrEqual a b) = (sol b \<le> sol a)"
| "holds sol (NoOverlap ivs) = no_overlap sol ivs"
| "holds sol (MaxEquality t vs) =
     (list_all (\<lambda>v. sol v \<le> sol t) vs \<and> list_ex (\<lambda>v. sol v = sol t) vs)"

definition satisfies :: "cp_model \<Rightarrow> (var \<Rightarrow> int) \<Rightarrow> bool" where
  "satisfies m sol =
     (list_all (\<lambda>(v, lb, ub). lb \<le> sol v \<and> sol v \<le> ub) (int_vars m) \<and>
      list_all (holds sol) (constraints m))"

subsection \<open>The Constraint Model Builder\<close>

record task_var =
  tv_start :: var
  tv_end :: var
  tv_interval :: interval
  tv_machine_id :: nat
  tv_duration_minutes :: int

definition horizon :: int where
  "horizon = 100000"

text \<open>
  \<^verbatim>\<open>int(float(d) * 60)\<close>: the duration becomes a double, the product is rounded to a
  double, and \<^verbatim>\<open>int\<close> truncates it. Where the code's builder returns, the builder below
  returns its model. The code's raises where the product is infinite (\<^verbatim>\<open>int\<close> raises) or
  the size is no 64-bit integer (\<^verbatim>\<open>NewIntervalVar\<close> raises), and the handler then answers
  500 before it solves; the builder below is total.
\<close>

definition minutes_of_hours :: "rat \<Rightarrow> int" where
  "minutes_of_hours d = py_int (fl64 (fl64 d * 60))"

fun create_task_vars ::
  "(nat \<times> task_data) list \<Rightarrow> cp_model \<times> (nat \<times> task_var) list \<Rightarrow>
   cp_model \<times> (nat \<times> task_var) list" where
  "create_task_vars [] (model, task_vars) = (model, task_vars)"
| "create_task_vars ((tid, data) # rest) (model, task_vars) =
     (let duration_minutes = minutes_of_hours (data_duration data);
          model = NewIntVar 0 horizon (StartVar tid) model;
          model = NewIntVar 0 horizon (EndVar tid) model;
          model = NewIntervalVar (StartVar tid) duration_minutes (EndVar tid) model
      in create_task_vars rest
           (model,
            AList.update tid
              \<lparr>tv_start = StartVar tid, tv_end = EndVar tid,
               tv_interval = (StartVar tid, duration_minutes, EndVar tid),
               tv_machine_id = data_machine_id data,
               tv_duration_minutes = duration_minutes\<rparr> task_vars))"

fun add_precedence_constraints ::
  "(nat \<times> nat) list \<Rightarrow> (nat \<times> task_var) list \<Rightarrow> cp_model \<Rightarrow> cp_model" where
  "add_precedence_constraints [] task_vars model = model"
| "add_precedence_constraints ((predecessor_id, successor_id) # rest) task_vars model =
     (case (map_of task_vars predecessor_id, map_of task_vars successor_id) of
        (Some p, Some s) \<Rightarrow>
          add_precedence_constraints rest task_vars
            (Add (GreaterOrEqual (tv_start s) (tv_end p)) model)
      | _ \<Rightarrow> add_precedence_constraints rest task_vars model)"

fun collect_machine_intervals ::
  "task_var list \<Rightarrow> (nat \<times> interval list) list \<Rightarrow> (nat \<times> interval list) list" where
  "collect_machine_intervals [] machine_intervals = machine_intervals"
| "collect_machine_intervals (t_vars # rest) machine_intervals =
     (case map_of machine_intervals (tv_machine_id t_vars) of
        Some ivs \<Rightarrow>
          collect_machine_intervals rest
            (AList.update (tv_machine_id t_vars) (ivs @ [tv_interval t_vars]) machine_intervals)
      | None \<Rightarrow> collect_machine_intervals rest machine_intervals)"

text \<open>
  \<^verbatim>\<open>machines[m_id]\<close> cannot raise KeyError here: the keys of \<^verbatim>\<open>machine_intervals\<close> are the
  keys of \<^verbatim>\<open>machines\<close>.
\<close>

fun add_capacity_constraints ::
  "(nat \<times> interval list) list \<Rightarrow> (nat \<times> int) list \<Rightarrow> cp_model \<Rightarrow> cp_model" where
  "add_capacity_constraints [] machines_d model = model"
| "add_capacity_constraints ((m_id, intervals) # rest) machines_d model =
     (if map_of machines_d m_id = Some 1
      then add_capacity_constraints rest machines_d (AddNoOverlap intervals model)
      else add_capacity_constraints rest machines_d model)"

definition add_objective :: "(nat \<times> task_var) list \<Rightarrow> cp_model \<Rightarrow> cp_model" where
  "add_objective task_vars model =
     (let all_ends = map (\<lambda>(tid, t_vars). tv_end t_vars) task_vars in
      if all_ends \<noteq> []
      then Minimize MaxEndTime
             (AddMaxEquality MaxEndTime all_ends (NewIntVar 0 horizon MaxEndTime model))
      else model)"

definition build_model ::
  "(nat \<times> int) list \<Rightarrow> (nat \<times> task_data) list \<Rightarrow> (nat \<times> nat) list \<Rightarrow>
   cp_model \<times> (nat \<times> task_var) list" where
  "build_model machines_d tasks_d precedences_l =
     (let (model, task_vars) = create_task_vars tasks_d (CpModel, []);
          model = add_precedence_constraints precedences_l task_vars model;
          machine_intervals = map (\<lambda>(m_id, cap). (m_id, [])) machines_d;
          machine_intervals = collect_machine_intervals (map snd task_vars) machine_intervals;
          model = add_capacity_constraints machine_intervals machines_d model;
          model = add_objective task_vars model
      in (model, task_vars))"

subsection \<open>The Solution Materializer and the handler of /api/optimize\<close>

text \<open>
  The solver is a parameter of the handler: a function from the model to the status of
  \<^verbatim>\<open>solver.Solve\<close> and the assignment that \<^verbatim>\<open>solver.Value\<close> reads. Its contract, that an
  assignment reported with \<open>OPTIMAL\<close> or \<open>FEASIBLE\<close> satisfies the model, is a hypothesis
  of the statements that need it. \<^verbatim>\<open>solver.ObjectiveValue()\<close> is the value of the minimized
  variable.
\<close>

datatype solver_status = UNKNOWN | MODEL_INVALID | FEASIBLE | INFEASIBLE | OPTIMAL

text \<open>
  The anchor of the schedule. \<^verbatim>\<open>strptime\<close> is a parameter: \<open>None\<close> is its ValueError,
  which the handler answers with 400; \<^verbatim>\<open>split\<close> on a value that is not a string raises
  AttributeError, which the handler does not catch here.
\<close>

definition parse_start_time ::
  "(string \<Rightarrow> timestamp option) \<Rightarrow> timestamp \<Rightarrow> jval option \<Rightarrow> py_error + timestamp" where
  "parse_start_time strptime now start_time_str =
     (if truthy_opt start_time_str then
        (case start_time_str of
           Some (JStr s) \<Rightarrow>
             (let clean_time_str = takeWhile (\<lambda>ch. ch \<noteq> CHR ''.'') s in
              case strptime clean_time_str of
                None \<Rightarrow> Inl ValueError
              | Some t \<Rightarrow> Inr t)
         | _ \<Rightarrow> Inl AttributeError)
      else Inr (round_to_minute now))"

definition offset_time :: "timestamp \<Rightarrow> int \<Rightarrow> py_error + timestamp" where
  "offset_time anchor minutes =
     (case timedelta_minutes minutes of
        Inl e \<Rightarrow> Inl e
      | Inr delta \<Rightarrow> datetime_add anchor delta)"

definition schedule_task :: "timestamp \<Rightarrow> timestamp \<Rightarrow> task_row \<Rightarrow> task_row" where
  "schedule_task st en t = t\<lparr>start_time := Some st, end_time := Some en, status := ''Scheduled''\<rparr>"

definition execute_update_schedule :: "timestamp \<Rightarrow> timestamp \<Rightarrow> nat \<Rightarrow> conn \<Rightarrow> conn" where
  "execute_update_schedule st en tid c =
     c\<lparr>working := (working c)\<lparr>tasks :=
          map (\<lambda>t. if task_id t = tid then schedule_task st en t else t)
            (tasks (working c))\<rparr>\<rparr>"

fun save_schedule ::
  "timestamp \<Rightarrow> (var \<Rightarrow> int) \<Rightarrow> (nat \<times> task_var) list \<Rightarrow> conn \<Rightarrow>
   (py_error \<times> conn) + conn" where
  "save_schedule schedule_start_time sol [] c = Inr c"
| "save_schedule schedule_start_time sol ((tid, t_vars) # rest) c =
     (case offset_time schedule_start_time (sol (tv_start t_vars)) of
        Inl e \<Rightarrow> Inl (e, c)
      | Inr actual_start_time \<Rightarrow>
          (case offset_time schedule_start_time (sol (tv_end t_vars)) of
             Inl e \<Rightarrow> Inl (e, c)
           | Inr actual_end_time \<Rightarrow>
               save_schedule schedule_start_time sol rest
                 (execute_update_schedule actual_start_time actual_end_time tid c)))"

text \<open>
  The body of the handler's \<^verbatim>\<open>try\<close>: an exception comes with the connection as it was
  when raised, a returned response with the connection as it was at the \<^verbatim>\<open>return\<close>.
  \<^verbatim>\<open>request.get_json(silent=True) or {}\<close> gives the empty dict for a missing, malformed
  or falsy body; \<^verbatim>\<open>get\<close> on a body that is not an object raises AttributeError.
\<close>

definition request_data :: "jval option \<Rightarrow> py_error + (string \<times> jval) list" where
  "request_data body =
     (case body of
        None \<Rightarrow> Inr []
      | Some v \<Rightarrow>
          if \<not> truthy v then Inr []
          else (case v of JObj kvs \<Rightarrow> Inr kvs | _ \<Rightarrow> Inl AttributeError))"

definition optimization_try ::
  "(string \<Rightarrow> timestamp option) \<Rightarrow> timestamp \<Rightarrow> (cp_model \<Rightarrow> solver_status \<times> (var \<Rightarrow> int)) \<Rightarrow>
   conn \<Rightarrow> jval option \<Rightarrow> (py_error \<times> conn) + (conn \<times> response)" where
  "optimization_try strptime now solver c body =
     (case request_data body of
        Inl e \<Rightarrow> Inl (e, c)
      | Inr data \<Rightarrow>
          (case parse_start_time strptime now (map_of data ''start_time'') of
             Inl ValueError \<Rightarrow> Inr (c, reply 400)
           | Inl e \<Rightarrow> Inl (e, c)
           | Inr t \<Rightarrow>
               (let schedule_start_time = round_to_minute t;
                    (machines_d, tasks_d, precedences_l) = fetch_scheduling_data c
                in if tasks_d = [] then Inr (c, reply 200)
                   else
                     (let (model, task_vars) = build_model machines_d tasks_d precedences_l;
                          (st, sol) = solver model
                      in if st = OPTIMAL \<or> st = FEASIBLE then
                           (case save_schedule schedule_start_time sol task_vars c of
                              Inl (e, c') \<Rightarrow> Inl (e, c')
                            | Inr c' \<Rightarrow>
                                Inr (commit c',
                                     \<lparr>code = 200, status_field = Some ''OPTIMAL'',
                                      makespan_minutes = Some (sol MaxEndTime)\<rparr>))
                         else
                           Inr (c, \<lparr>code = 400, status_field = Some ''INFEASIBLE'',
                                    makespan_minutes = None\<rparr>)))))"

definition run_optimization ::
  "(string \<Rightarrow> timestamp option) \<Rightarrow> timestamp \<Rightarrow> (cp_model \<Rightarrow> solver_status \<times> (var \<Rightarrow> int)) \<Rightarrow>
   bool \<Rightarrow> db \<Rightarrow> jval option \<Rightarrow> db \<times> response" where
  "run_optimization strptime now solver reachable d body =
     (case get_db_connection reachable d of
        None \<Rightarrow> (d, reply 500)
      | Some c \<Rightarrow>
          (case optimization_try strptime now solver c body of
             Inl (e, c') \<Rightarrow> (close (rollback c'), reply 500)
           | Inr (c', r) \<Rightarrow> (close c', r)))"

section \<open>The other handlers\<close>

subsection \<open>PATCH /tasks/<id>/status\<close>

definition valid_statuses :: "string list" where
  "valid_statuses = [''In Progress'', ''Completed'', ''Canceled'', ''Pending'', ''Scheduled'']"

text \<open>\<^verbatim>\<open>UPDATE tasks SET status = %s WHERE task_id = %s\<close>, with its row count.\<close>

definition execute_update_status :: "string \<Rightarrow> nat \<Rightarrow> conn \<Rightarrow> conn \<times> nat" where
  "execute_update_status new_status tid c =
     (c\<lparr>working := (working c)\<lparr>tasks :=
          map (\<lambda>t. if task_id t = tid then t\<lparr>status := new_status\<rparr> else t)
            (tasks (working c))\<rparr>\<rparr>,
      length (filter (\<lambda>t. task_id t = tid) (tasks (working c))))"

definition update_task_status :: "bool \<Rightarrow> db \<Rightarrow> nat \<Rightarrow> jval \<Rightarrow> db \<times> response" where
  "update_task_status reachable d tid body =
     (case body of
        JObj data \<Rightarrow>
          (let new_status = map_of data ''status'' in
           if \<not> truthy_opt new_status then (d, reply 400)
           else
             (case new_status of
                Some (JStr s) \<Rightarrow>
                  if s \<notin> set valid_statuses then (d, reply 400)
                  else
                    (case get_db_connection reachable d of
                       None \<Rightarrow> (d, reply 500)
                     | Some c \<Rightarrow>
                         (let (c', rowcount) = execute_update_status s tid c in
                          if rowcount = 0 then (close c', reply 404)
                          else (close (commit c'), reply 200)))
              | _ \<Rightarrow> (d, reply 400)))
      | _ \<Rightarrow> (d, reply 500))"

subsection \<open>PATCH /tasks/<id>\<close>






subsection \<open>POST /precedences\<close>

text \<open>
  \<^verbatim>\<open>cursor.execute(query, vars=None)\<close> for the INSERT into precedences: any other keyword
  argument is a TypeError, and without \<^verbatim>\<open>vars\<close> the two placeholders of the statement
  stay unfilled, which the server rejects (ProgrammingError).
\<close>

definition execute_insert_precedence ::
  "(nat \<times> nat) option \<Rightarrow> string list \<Rightarrow> conn \<Rightarrow> (py_error \<times> conn) + conn" where
  "execute_insert_precedence vars kwargs c =
     (if list_ex (\<lambda>k. k \<noteq> ''query'' \<and> k \<noteq> ''vars'') kwargs then Inl (TypeError, c)
      else
        (case vars of
           None \<Rightarrow> Inl (ProgrammingError, c)
         | Some edge \<Rightarrow>
             Inr (c\<lparr>working := (working c)\<lparr>precedences :=
                    precedences (working c) @ [edge]\<rparr>\<rparr>)))"

text \<open>
  The handler calls \<^verbatim>\<open>cur.execute\<close> with the statement and the keyword argument
  \<^verbatim>\<open>predecessor_id\<close>, and no \<^verbatim>\<open>vars\<close>. Its \<^verbatim>\<open>except\<close> neither rolls back nor closes:
  what was not committed is lost with the connection.
\<close>

definition add_precedence :: "bool \<Rightarrow> db \<Rightarrow> jval \<Rightarrow> db \<times> response" where
  "add_precedence reachable d body =
     (case body of
        JObj data \<Rightarrow>
          (let predecessor_id = map_of data ''predecessor_id'';
               successor_id = map_of data ''successor_id''
           in if \<not> truthy_opt predecessor_id \<or> \<not> truthy_opt successor_id
              then (d, reply 400)
              else
                (case get_db_connection reachable d of
                   None \<Rightarrow> (d, reply 500)
                 | Some c \<Rightarrow>
                     (case execute_insert_precedence None [''predecessor_id''] c of
                        Inl (e, c') \<Rightarrow> (committed c', reply 500)
                      | Inr c' \<Rightarrow> (close (commit c'), reply 201))))
      | _ \<Rightarrow> (d, reply 500))"

section \<open>Notions used in the statements\<close>

text \<open>The entry of \<^verbatim>\<open>task_vars\<close> that the builder stores for a task.\<close>

definition mk_task_var :: "nat \<Rightarrow> task_data \<Rightarrow> task_var" where
  "mk_task_var tid data =
     \<lparr>tv_start = StartVar tid, tv_end = EndVar tid,
      tv_interval = (StartVar tid, minutes_of_hours (data_duration data), EndVar tid),
      tv_machine_id = data_machine_id data,
      tv_duration_minutes = minutes_of_hours (data_duration data)\<rparr>"

definition task_vars_of :: "(nat \<times> task_data) list \<Rightarrow> (nat \<times> task_var) list" where
  "task_vars_of ts = map (\<lambda>(tid, data). (tid, mk_task_var tid data)) ts"

text \<open>
  The model that the handler of /api/optimize builds on a connection, and the keys of
  the \<^verbatim>\<open>tasks\<close> dictionary it builds it from: the assembled task set.
\<close>

definition optimizer_model :: "conn \<Rightarrow> cp_model" where
  "optimizer_model c = (let (ms, ts, ps) = fetch_scheduling_data c in fst (build_model ms ts ps))"

definition assembled_task_ids :: "conn \<Rightarrow> nat set" where
  "assembled_task_ids c = (let (ms, ts, ps) = fetch_scheduling_data c in fst ` set ts)"

text \<open>
  A store for the examples: a lathe of capacity 1 and a mill of capacity 2; three tasks in
  the backlog and one that is scheduled; \<open>cut\<close> precedes \<open>drill\<close>, and \<open>pack\<close>, which is
  scheduled already, precedes \<open>cut\<close>. The assignment puts \<open>cut\<close> at minutes 0 to 120,
  \<open>drill\<close> at 120 to 210 and \<open>paint\<close> at 0 to 60.
\<close>

definition example_store :: db where
  "example_store =
     \<lparr>machines =
        [\<lparr>machine_id = 1, machine_name = ''Lathe'', capacity = 1\<rparr>,
         \<lparr>machine_id = 2, machine_name = ''Mill'', capacity = 2\<rparr>],
      tasks =
        [\<lparr>task_id = 1, job_id = 1, task_name = ''cut'', duration_hours = 2,
          required_machine_id = 1, status = ''Pending'', start_time = None, end_time = None\<rparr>,
         \<lparr>task_id = 2, job_id = 1, task_name = ''drill'', duration_hours = 3 / 2,
          required_machine_id = 1, status = ''In Progress'', start_time = None, end_time = None\<rparr>,
         \<lparr>task_id = 3, job_id = 2, task_name = ''paint'', duration_hours = 1,
          required_machine_id = 2, status = ''Canceled'', start_time = None, end_time = None\<rparr>,
         \<lparr>task_id = 4, job_id = 2, task_name = ''pack'', duration_hours = 1,
          required_machine_id = 1, status = ''Scheduled'',
          start_time = Some 0, end_time = Some 3600000000\<rparr>],
      precedences = [(1, 2), (4, 1)]\<rparr>"

fun example_solution :: "var \<Rightarrow> int" where
  "example_solution (StartVar n) = (if n = 1 then 0 else if n = 2 then 120 else 0)"
| "example_solution (EndVar n) = (if n = 1 then 120 else if n = 2 then 210 else 60)"
| "example_solution MaxEndTime = 210"

text \<open>
  The intervals of the assembled tasks that require a machine, in the order of the query,
  and the groups of the no-overlap constraints of a model, in the order they were added.
\<close>

definition machine_group :: "conn \<Rightarrow> nat \<Rightarrow> interval list" where
  "machine_group c m_id =
     map (\<lambda>t. (StartVar (task_id t), minutes_of_hours (duration_hours t), EndVar (task_id t)))
       (filter (\<lambda>t. required_machine_id t = m_id) (select_tasks c))"

fun exclusivity_groups :: "constr list \<Rightarrow> interval list list" where
  "exclusivity_groups [] = []"
| "exclusivity_groups (NoOverlap ivs # cs) = ivs # exclusivity_groups cs"
| "exclusivity_groups (ct # cs) = exclusivity_groups cs"

definition group_of :: "nat \<Rightarrow> task_var list \<Rightarrow> interval list" where
  "group_of k ts = map tv_interval (filter (\<lambda>t. tv_machine_id t = k) ts)"

text \<open>
  The row that a successful run leaves for a task: with the anchor \<open>a\<close> and the assignment
  \<open>sol\<close>, a task among \<open>ids\<close> starts at \<open>a\<close> plus its start offset in minutes, ends at \<open>a\<close>
  plus its end offset and is \<open>Scheduled\<close>; any other row is as it was. An assignment can
  be materialized when both timestamps of every task are Python datetimes.
\<close>

definition persisted :: "timestamp \<Rightarrow> (var \<Rightarrow> int) \<Rightarrow> nat set \<Rightarrow> task_row \<Rightarrow> task_row" where
  "persisted a sol ids t =
     (if task_id t \<in> ids
      then schedule_task (a + sol (StartVar (task_id t)) * 60000000)
             (a + sol (EndVar (task_id t)) * 60000000) t
      else t)"

definition materializable :: "timestamp \<Rightarrow> (var \<Rightarrow> int) \<Rightarrow> nat set \<Rightarrow> bool" where
  "materializable a sol ids =
     (\<forall>tid \<in> ids. \<not> isl (offset_time a (sol (StartVar tid))) \<and>
                    \<not> isl (offset_time a (sol (EndVar tid))))"

text \<open>The two responses of /api/optimize that carry a \<^verbatim>\<open>status\<close> key.\<close>

definition optimal_response :: "(var \<Rightarrow> int) \<Rightarrow> response" where
  "optimal_response sol =
     \<lparr>code = 200, status_field = Some ''OPTIMAL'', makespan_minutes = Some (sol MaxEndTime)\<rparr>"

definition infeasible_response :: response where
  "infeasible_response = \<lparr>code = 400, status_field = Some ''INFEASIBLE'', makespan_minutes = None\<rparr>"

text \<open>
  A run on the example store: the solver answers \<open>FEASIBLE\<close> with the example assignment,
  the clock shows 123456 microseconds past 2023-11-14T22:13:20, and \<^verbatim>\<open>strptime\<close> reads one
  timestamp, two and a half hours before the last datetime. \<open>example_scheduled\<close> is the
  task table after the run anchored at the clock.
\<close>

definition example_solver :: "cp_model \<Rightarrow> solver_status \<times> (var \<Rightarrow> int)" where
  "example_solver m = (FEASIBLE, example_solution)"

definition example_strptime :: "string \<Rightarrow> timestamp option" where
  "example_strptime s = (if s = ''9999-12-31T21:30:00'' then Some 253402291800000000 else None)"

definition example_now :: timestamp where
  "example_now = 1700000000123456"

definition example_scheduled :: "task_row list" where
  "example_scheduled =
     [\<lparr>task_id = 1, job_id = 1, task_name = ''cut'', duration_hours = 2,
       required_machine_id = 1, status = ''Scheduled'',
       start_time = Some 1699999980000000, end_time = Some 1700007180000000\<rparr>,
      \<lparr>task_id = 2, job_id = 1, task_name = ''drill'', duration_hours = 3 / 2,
       required_machine_id = 1, status = ''Scheduled'',
       start_time = Some 1700007180000000, end_time = Some 1700012580000000\<rparr>,
      \<lparr>task_id = 3, job_id = 2, task_name = ''paint'', duration_hours = 1,
       required_machine_id = 2, status = ''Scheduled'',
       start_time = Some 1699999980000000, end_time = Some 1700003580000000\<rparr>,
      \<lparr>task_id = 4, job_id = 2, task_name = ''pack'', duration_hours = 1,
       required_machine_id = 1, status = ''Scheduled'',
       start_time = Some 0, end_time = Some 3600000000\<rparr>]"

text \<open>The end timestamps of the tasks bound to a machine, whatever their status.\<close>

definition machine_ends :: "conn \<Rightarrow> nat \<Rightarrow> timestamp set" where
  "machine_ends c m_id =
     {e. \<exists>t \<in> set (tasks (working c)). required_machine_id t = m_id \<and> end_time t = Some e}"







section \<open>Dictionaries and the builder's loops\<close>

lemma fold_update_keys:
  "fst ` set (fold (\<lambda>r d. AList.update (key r) (val r) d) rows acc) = key ` set rows \<union> fst ` set acc"
  by (induction rows arbitrary: acc) (auto simp: dom_update)

lemma dict_of_keys: "fst ` set (dict_of key val rows) = key ` set rows"
  by (simp add: dict_of_def fold_update_keys)

lemma fold_update_distinct:
  "distinct (map fst acc) \<Longrightarrow> distinct (map fst (fold (\<lambda>r d. AList.update (key r) (val r) d) rows acc))"
  by (induction rows arbitrary: acc) (auto simp: distinct_update)

lemma dict_of_distinct: "distinct (map fst (dict_of key val rows))"
  by (simp add: dict_of_def fold_update_distinct)

lemma update_fresh: "k \<notin> fst ` set al \<Longrightarrow> AList.update k v al = al @ [(k, v)]"
  by (induction al) auto

lemma fold_update_fresh:
  "distinct (map key rows) \<Longrightarrow> key ` set rows \<inter> fst ` set acc = {} \<Longrightarrow>
   fold (\<lambda>r d. AList.update (key r) (val r) d) rows acc = acc @ map (\<lambda>r. (key r, val r)) rows"
proof (induction rows arbitrary: acc)
  case Nil
  then show ?case by simp
next
  case (Cons r rows)
  have fresh: "key r \<notin> fst ` set acc" using Cons.prems(2) by auto
  have "key ` set rows \<inter> fst ` set (acc @ [(key r, val r)]) = {}"
    using Cons.prems by auto
  with Cons.IH [of "acc @ [(key r, val r)]"] Cons.prems(1) fresh show ?case
    by (simp add: update_fresh)
qed

lemma dict_of_distinct_rows:
  "distinct (map key rows) \<Longrightarrow> dict_of key val rows = map (\<lambda>r. (key r, val r)) rows"
  by (simp add: dict_of_def fold_update_fresh)

lemma create_task_vars_closed:
  "distinct (map fst tasks_d) \<Longrightarrow> fst ` set tasks_d \<inter> fst ` set tvs = {} \<Longrightarrow>
   create_task_vars tasks_d (m, tvs) =
     (m\<lparr>int_vars := int_vars m @
            concat (map (\<lambda>(tid, data). [(StartVar tid, 0, horizon), (EndVar tid, 0, horizon)]) tasks_d),
        constraints := constraints m @
            map (\<lambda>(tid, data). Interval (StartVar tid) (minutes_of_hours (data_duration data)) (EndVar tid)) tasks_d\<rparr>,
      tvs @ map (\<lambda>(tid, data). (tid, mk_task_var tid data)) tasks_d)"
proof (induction tasks_d arbitrary: m tvs)
  case Nil
  then show ?case by simp
next
  case (Cons a tasks_d)
  obtain tid data where a: "a = (tid, data)" by (cases a)
  have fresh: "tid \<notin> fst ` set tvs" using Cons.prems(2) a by auto
  have d: "distinct (map fst tasks_d)" using Cons.prems(1) by simp
  have e: "fst ` set tasks_d \<inter> fst ` set (tvs @ [(tid, mk_task_var tid data)]) = {}"
    using Cons.prems a by auto
  show ?case
    unfolding a
    by (simp add: Let_def Cons.IH [OF d e, unfolded mk_task_var_def] update_fresh [OF fresh]
        NewIntVar_def NewIntervalVar_def mk_task_var_def)
qed

lemma add_precedence_constraints_closed:
  "add_precedence_constraints precs tvs m =
     m\<lparr>constraints := constraints m @
        map (\<lambda>(p, s). GreaterOrEqual (tv_start (the (map_of tvs s))) (tv_end (the (map_of tvs p))))
          (filter (\<lambda>(p, s). map_of tvs p \<noteq> None \<and> map_of tvs s \<noteq> None) precs)\<rparr>"
proof (induction precs tvs m rule: add_precedence_constraints.induct)
  case (1 task_vars model)
  then show ?case by simp
next
  case (2 predecessor_id successor_id rest task_vars model)
  then show ?case
    by (cases "map_of task_vars predecessor_id"; cases "map_of task_vars successor_id")
       (simp_all add: Add_def)
qed

lemma add_capacity_constraints_closed:
  "add_capacity_constraints mi machines_d m =
     m\<lparr>constraints := constraints m @
        map (\<lambda>(m_id, ivs). NoOverlap ivs)
          (filter (\<lambda>(m_id, ivs). map_of machines_d m_id = Some 1) mi)\<rparr>"
  by (induction mi machines_d m rule: add_capacity_constraints.induct)
     (simp_all add: AddNoOverlap_def)

lemma map_of_task_vars_of:
  "map_of (task_vars_of ts) k = map_option (mk_task_var k) (map_of ts k)"
  by (induction ts) (auto simp: task_vars_of_def)

lemma task_vars_of_entry:
  assumes "(k, v) \<in> set ts"
  shows "tv_start (the (map_of (task_vars_of ts) k)) = StartVar k"
    and "tv_end (the (map_of (task_vars_of ts) k)) = EndVar k"
proof -
  from assms have "k \<in> fst ` set ts" by force
  then obtain data where "map_of ts k = Some data"
    by (metis domD dom_map_of_conv_image_fst)
  then show "tv_start (the (map_of (task_vars_of ts) k)) = StartVar k"
    and "tv_end (the (map_of (task_vars_of ts) k)) = EndVar k"
    by (simp_all add: map_of_task_vars_of mk_task_var_def)
qed

lemma build_model_task_vars:
  "distinct (map fst ts) \<Longrightarrow> snd (build_model ms ts ps) = task_vars_of ts"
  by (simp add: build_model_def create_task_vars_closed Let_def task_vars_of_def split: prod.splits)

lemma build_model_constraints:
  assumes "distinct (map fst ts)"
  shows "constraints (fst (build_model ms ts ps)) =
     map (\<lambda>(tid, data). Interval (StartVar tid) (minutes_of_hours (data_duration data)) (EndVar tid)) ts @
     map (\<lambda>(p, s). GreaterOrEqual (StartVar s) (EndVar p))
       (filter (\<lambda>(p, s). p \<in> fst ` set ts \<and> s \<in> fst ` set ts) ps) @
     map (\<lambda>(m_id, ivs). NoOverlap ivs)
       (filter (\<lambda>(m_id, ivs). map_of ms m_id = Some 1)
         (collect_machine_intervals (map snd (task_vars_of ts)) (map (\<lambda>(m_id, cap). (m_id, [])) ms))) @
     (if ts = [] then [] else [MaxEquality MaxEndTime (map (\<lambda>(tid, data). EndVar tid) ts)])"
proof -
  have dom: "map_of (task_vars_of ts) k \<noteq> None \<longleftrightarrow> k \<in> fst ` set ts" for k
    by (simp add: map_of_task_vars_of map_of_eq_None_iff)
  have prec: "map (\<lambda>(p, s). GreaterOrEqual (tv_start (the (map_of (task_vars_of ts) s)))
                 (tv_end (the (map_of (task_vars_of ts) p))))
       (filter (\<lambda>(p, s). map_of (task_vars_of ts) p \<noteq> None \<and> map_of (task_vars_of ts) s \<noteq> None) ps) =
     map (\<lambda>(p, s). GreaterOrEqual (StartVar s) (EndVar p))
       (filter (\<lambda>(p, s). p \<in> fst ` set ts \<and> s \<in> fst ` set ts) ps)"
    unfolding dom
    by (rule map_cong [OF refl]) (auto simp: task_vars_of_entry)
  have ends: "map (\<lambda>(tid, t_vars). tv_end t_vars) (task_vars_of ts) = map (\<lambda>(tid, data). EndVar tid) ts"
    by (induction ts) (auto simp: task_vars_of_def mk_task_var_def)
  have cr: "create_task_vars ts (CpModel, []) =
     (CpModel\<lparr>int_vars := int_vars CpModel @
            concat (map (\<lambda>(tid, data). [(StartVar tid, 0, horizon), (EndVar tid, 0, horizon)]) ts),
        constraints := constraints CpModel @
            map (\<lambda>(tid, data). Interval (StartVar tid) (minutes_of_hours (data_duration data)) (EndVar tid)) ts\<rparr>,
      task_vars_of ts)"
    using create_task_vars_closed [OF assms, of "[]" CpModel] by (simp add: task_vars_of_def)
  have nil: "task_vars_of ts = [] \<longleftrightarrow> ts = []"
    by (simp add: task_vars_of_def)
  have pr: "add_precedence_constraints ps (task_vars_of ts) M =
      M\<lparr>constraints := constraints M @
        map (\<lambda>(p, s). GreaterOrEqual (StartVar s) (EndVar p))
          (filter (\<lambda>(p, s). p \<in> fst ` set ts \<and> s \<in> fst ` set ts) ps)\<rparr>" for M
    by (simp only: add_precedence_constraints_closed prec)
  show ?thesis
  proof (cases "ts = []")
    case True
    then show ?thesis
      by (simp add: build_model_def Let_def add_precedence_constraints_closed
          add_capacity_constraints_closed add_objective_def CpModel_def task_vars_of_def)
  next
    case False
    then show ?thesis
      unfolding build_model_def cr
      by (simp add: Let_def pr add_capacity_constraints_closed nil
          add_objective_def ends CpModel_def NewIntVar_def AddMaxEquality_def Minimize_def)
  qed
qed

lemma optimizer_model_constraints:
  "constraints (optimizer_model c) =
     map (\<lambda>(tid, data). Interval (StartVar tid) (minutes_of_hours (data_duration data)) (EndVar tid))
       (dict_of task_id task_data_of (select_tasks c)) @
     map (\<lambda>(p, s). GreaterOrEqual (StartVar s) (EndVar p))
       (filter (\<lambda>(p, s). p \<in> assembled_task_ids c \<and> s \<in> assembled_task_ids c)
         (select_precedences c)) @
     map (\<lambda>(m_id, ivs). NoOverlap ivs)
       (filter (\<lambda>(m_id, ivs). map_of (dict_of machine_id capacity (select_machines c)) m_id = Some 1)
         (collect_machine_intervals
            (map snd (task_vars_of (dict_of task_id task_data_of (select_tasks c))))
            (map (\<lambda>(m_id, cap). (m_id, [])) (dict_of machine_id capacity (select_machines c))))) @
     (if dict_of task_id task_data_of (select_tasks c) = [] then []
      else [MaxEquality MaxEndTime
              (map (\<lambda>(tid, data). EndVar tid) (dict_of task_id task_data_of (select_tasks c)))])"
  by (simp add: optimizer_model_def assembled_task_ids_def fetch_scheduling_data_def Let_def
      build_model_constraints [OF dict_of_distinct])

lemma assembled_task_ids_eq:
  "assembled_task_ids c =
     {task_id t |t. t \<in> set (tasks (working c)) \<and> status t \<noteq> ''Completed'' \<and> status t \<noteq> ''Scheduled''}"
  by (auto simp: assembled_task_ids_def fetch_scheduling_data_def Let_def dict_of_keys select_tasks_def)

lemma satisfies_constraint:
  "satisfies m sol \<Longrightarrow> ct \<in> set (constraints m) \<Longrightarrow> holds sol ct"
  by (simp add: satisfies_def list_all_iff)

section \<open>Rounding to a double\<close>









lemma add_precedence_constraints_retained:
  "add_precedence_constraints ps tvs m =
   add_precedence_constraints
     (filter (\<lambda>(p, s). map_of tvs p \<noteq> None \<and> map_of tvs s \<noteq> None) ps) tvs m"
  by (simp only: add_precedence_constraints_closed filter_filter) (simp add: case_prod_unfold)

lemma build_model_retained:
  assumes "distinct (map fst ts)"
  shows "build_model ms ts ps =
         build_model ms ts (filter (\<lambda>(p, s). p \<in> fst ` set ts \<and> s \<in> fst ` set ts) ps)"
proof -
  have dom: "(map_of (task_vars_of ts) k \<noteq> None) = (k \<in> fst ` set ts)" for k
    by (simp add: map_of_task_vars_of map_of_eq_None_iff)
  have cr: "create_task_vars ts (CpModel, []) = (fst (create_task_vars ts (CpModel, [])), task_vars_of ts)"
    using create_task_vars_closed [OF assms, of "[]" CpModel] by (simp add: task_vars_of_def)
  have "add_precedence_constraints ps (task_vars_of ts) M =
        add_precedence_constraints
          (filter (\<lambda>(p, s). p \<in> fst ` set ts \<and> s \<in> fst ` set ts) ps) (task_vars_of ts) M" for M
    using add_precedence_constraints_retained [of ps "task_vars_of ts" M] unfolding dom .
  then show ?thesis
    unfolding build_model_def
    by (subst (1 2) cr) (simp add: Let_def)
qed

lemma model_interval_iff:
  "(\<exists>dm. Interval (StartVar tid) dm (EndVar tid) \<in> set (constraints (optimizer_model c)))
      \<longleftrightarrow> tid \<in> assembled_task_ids c"
proof
  let ?ts = "dict_of task_id task_data_of (select_tasks c)"
  have ids: "assembled_task_ids c = fst ` set ?ts"
    by (simp add: assembled_task_ids_def fetch_scheduling_data_def)
  {
    assume "\<exists>dm. Interval (StartVar tid) dm (EndVar tid) \<in> set (constraints (optimizer_model c))"
    then show "tid \<in> assembled_task_ids c"
      unfolding optimizer_model_constraints ids by (force split: if_splits)
  }
  {
    assume "tid \<in> assembled_task_ids c"
    then obtain data where "(tid, data) \<in> set ?ts" unfolding ids by auto
    then have "Interval (StartVar tid) (minutes_of_hours (data_duration data)) (EndVar tid) \<in>
        set (map (\<lambda>(tid, data). Interval (StartVar tid) (minutes_of_hours (data_duration data)) (EndVar tid)) ?ts)"
      by force
    then have "Interval (StartVar tid) (minutes_of_hours (data_duration data)) (EndVar tid) \<in>
        set (constraints (optimizer_model c))"
      unfolding optimizer_model_constraints by simp
    then show "\<exists>dm. Interval (StartVar tid) dm (EndVar tid) \<in> set (constraints (optimizer_model c))" ..
  }
qed

section \<open>Machine intervals\<close>

lemma distinct_map_sort_key:
  "distinct (map f (sort_key g xs)) = distinct (map f xs)"
  by (simp add: distinct_map)

lemma update_distinct_map:
  "distinct (map fst al) \<Longrightarrow> map_of al k = Some v \<Longrightarrow>
   AList.update k v' al = map (\<lambda>(k', w). if k' = k then (k', v') else (k', w)) al"
proof (induction al)
  case Nil
  then show ?case by simp
next
  case (Cons a al)
  obtain k0 w0 where a: "a = (k0, w0)" by (cases a)
  show ?case
  proof (cases "k0 = k")
    case True
    with Cons.prems a have "k \<notin> fst ` set al" by auto
    then have "map (\<lambda>(k', w). if k' = k then (k', v') else (k', w)) al = al"
      by (induction al) auto
    with True a show ?thesis by simp
  next
    case False
    with Cons a show ?thesis by simp
  qed
qed

lemma collect_machine_intervals_closed:
  "distinct (map fst mi) \<Longrightarrow>
   collect_machine_intervals ts mi = map (\<lambda>(k, ivs). (k, ivs @ group_of k ts)) mi"
proof (induction ts arbitrary: mi)
  case Nil
  then show ?case by (simp add: group_of_def)
next
  case (Cons t ts)
  let ?k = "tv_machine_id t"
  show ?case
  proof (cases "map_of mi ?k")
    case None
    then have "?k \<notin> fst ` set mi" by (simp add: map_of_eq_None_iff)
    then have "map (\<lambda>(k, ivs). (k, ivs @ group_of k (t # ts))) mi =
               map (\<lambda>(k, ivs). (k, ivs @ group_of k ts)) mi"
      by (intro map_cong [OF refl]) (force simp: group_of_def)
    with None Cons show ?thesis by simp
  next
    case (Some ivs)
    let ?mi' = "AList.update ?k (ivs @ [tv_interval t]) mi"
    have d': "distinct (map fst ?mi')" using Cons.prems by (simp add: distinct_update)
    have u: "?mi' = map (\<lambda>(k', w). if k' = ?k then (k', ivs @ [tv_interval t]) else (k', w)) mi"
      by (rule update_distinct_map [OF Cons.prems Some])
    have "map (\<lambda>(k, ivs). (k, ivs @ group_of k ts)) ?mi' =
          map (\<lambda>(k, ivs). (k, ivs @ group_of k (t # ts))) mi"
      unfolding u map_map
    proof (intro map_cong [OF refl])
      fix x assume x: "x \<in> set mi"
      obtain k' w where xk: "x = (k', w)" by (cases x)
      show "((\<lambda>(k, ivs). (k, ivs @ group_of k ts)) \<circ>
             (\<lambda>(k', w). if k' = ?k then (k', ivs @ [tv_interval t]) else (k', w))) x =
            (case x of (k, ivs) \<Rightarrow> (k, ivs @ group_of k (t # ts)))"
      proof (cases "k' = ?k")
        case True
        with x xk Cons.prems Some have "w = ivs" by (metis map_of_is_SomeI option.inject)
        with True xk show ?thesis by (simp add: group_of_def)
      next
        case False
        with xk show ?thesis by (simp add: group_of_def)
      qed
    qed
    with Some Cons.IH [OF d'] show ?thesis by simp
  qed
qed

lemma exclusivity_groups_append:
  "exclusivity_groups (xs @ ys) = exclusivity_groups xs @ exclusivity_groups ys"
  by (induction xs rule: exclusivity_groups.induct) auto

lemma exclusivity_groups_intervals:
  "exclusivity_groups (map (\<lambda>(tid, data). Interval (StartVar tid) (f data) (EndVar tid)) ts) = []"
  by (induction ts) auto

lemma exclusivity_groups_precedences:
  "exclusivity_groups (map (\<lambda>(p, s). GreaterOrEqual (StartVar s) (EndVar p)) ps) = []"
  by (induction ps) auto

lemma exclusivity_groups_no_overlaps:
  "exclusivity_groups (map (\<lambda>(m_id, ivs). NoOverlap ivs) mi) = map snd mi"
  by (induction mi) auto

lemma disjoint_from_member:
  "disjoint_from sol (s, d, e) ivs \<Longrightarrow> (s', d', e') \<in> set ivs \<Longrightarrow>
   sol e \<le> sol s' \<or> sol e' \<le> sol s"
  by (induction ivs) auto

lemma no_overlap_pair:
  "no_overlap sol ivs \<Longrightarrow> (s, d, e) \<in> set ivs \<Longrightarrow> (s', d', e') \<in> set ivs \<Longrightarrow>
   (s, d, e) \<noteq> (s', d', e') \<Longrightarrow> sol e \<le> sol s' \<or> sol e' \<le> sol s"
proof (induction ivs)
  case Nil
  then show ?case by simp
next
  case (Cons iv ivs)
  then show ?case
    using disjoint_from_member [of sol s d e ivs s' d' e']
      disjoint_from_member [of sol s' d' e' ivs s d e]
    by auto
qed

lemma select_tasks_distinct:
  "distinct (map task_id (tasks (working c))) \<Longrightarrow> distinct (map task_id (select_tasks c))"
  by (simp add: select_tasks_def distinct_map_sort_key distinct_map_filter)

lemma select_machines_distinct:
  "distinct (map machine_id (machines (working c))) \<Longrightarrow> distinct (map machine_id (select_machines c))"
  by (simp add: select_machines_def distinct_map_sort_key)

lemma group_of_task_vars:
  "group_of k (map snd (task_vars_of (map (\<lambda>t. (task_id t, task_data_of t)) rows))) =
   map (\<lambda>t. (StartVar (task_id t), minutes_of_hours (duration_hours t), EndVar (task_id t)))
     (filter (\<lambda>t. required_machine_id t = k) rows)"
  by (induction rows) (auto simp: group_of_def task_vars_of_def mk_task_var_def task_data_of_def)

lemma exclusivity_groups_model:
  assumes t: "distinct (map task_id (tasks (working c)))"
    and m: "distinct (map machine_id (machines (working c)))"
  shows "exclusivity_groups (constraints (optimizer_model c)) =
     map (\<lambda>m. machine_group c (machine_id m)) (filter (\<lambda>m. capacity m = 1) (select_machines c))"
proof -
  let ?rows = "select_tasks c" and ?ms = "select_machines c"
  let ?md = "map (\<lambda>r. (machine_id r, capacity r)) ?ms"
  have td: "dict_of task_id task_data_of ?rows = map (\<lambda>t. (task_id t, task_data_of t)) ?rows"
    by (rule dict_of_distinct_rows [OF select_tasks_distinct [OF t]])
  have md: "dict_of machine_id capacity ?ms = ?md"
    by (rule dict_of_distinct_rows [OF select_machines_distinct [OF m]])
  have dm: "distinct (map fst ?md)"
    using select_machines_distinct [OF m] by (simp add: comp_def)
  have d0: "distinct (map fst (map (\<lambda>(m_id, cap). (m_id, [])) ?md))"
    using dm by (simp add: comp_def)
  have coll: "collect_machine_intervals
      (map snd (task_vars_of (map (\<lambda>t. (task_id t, task_data_of t)) ?rows)))
      (map (\<lambda>(m_id, cap). (m_id, [])) ?md) =
      map (\<lambda>r. (machine_id r, machine_group c (machine_id r))) ?ms"
    unfolding collect_machine_intervals_closed [OF d0]
    by (simp add: group_of_task_vars machine_group_def comp_def)
  have look: "map_of ?md (machine_id r) = Some (capacity r)" if "r \<in> set ?ms" for r
  proof -
    from that have "(machine_id r, capacity r) \<in> set ?md" by force
    with dm show ?thesis by (rule map_of_is_SomeI)
  qed
  have filt: "filter (\<lambda>(m_id, ivs). map_of ?md m_id = Some 1)
        (map (\<lambda>r. (machine_id r, machine_group c (machine_id r))) ?ms) =
      map (\<lambda>r. (machine_id r, machine_group c (machine_id r))) (filter (\<lambda>m. capacity m = 1) ?ms)"
    unfolding filter_map
    by (rule arg_cong [where f = "map _"], rule filter_cong [OF refl]) (simp add: look)
  show ?thesis
    unfolding optimizer_model_constraints td md coll filt exclusivity_groups_append
      exclusivity_groups_intervals exclusivity_groups_precedences exclusivity_groups_no_overlaps
    by (simp add: comp_def)
qed

lemma exclusivity_groups_member:
  "ivs \<in> set (exclusivity_groups cs) \<longleftrightarrow> NoOverlap ivs \<in> set cs"
  by (induction cs rule: exclusivity_groups.induct) auto

section \<open>The materializer's loop and the outcome of a run\<close>

lemma offset_time_Inr:
  "offset_time a m = Inr t \<Longrightarrow> t = a + m * 60000000"
  by (auto simp: offset_time_def timedelta_minutes_def datetime_add_def Let_def
      split: sum.splits if_splits)

lemma save_schedule_raise:
  "save_schedule a sol tvs c = Inl (e, c') \<Longrightarrow> committed c' = committed c"
proof (induction tvs arbitrary: c)
  case Nil
  then show ?case by simp
next
  case (Cons x tvs)
  obtain tid tv where x: "x = (tid, tv)" by (cases x)
  from Cons.prems show ?case
    unfolding x
    by (auto simp: execute_update_schedule_def split: sum.splits dest!: Cons.IH)
qed

lemma schedule_task_id [simp]: "task_id (schedule_task st en t) = task_id t"
  by (simp add: schedule_task_def)

lemma schedule_task_twice [simp]:
  "schedule_task st en (schedule_task st' en' t) = schedule_task st en t"
  by (simp add: schedule_task_def)

lemma persisted_step:
  "persisted a sol ids
     (if task_id t = tid
      then schedule_task (a + sol (StartVar tid) * 60000000) (a + sol (EndVar tid) * 60000000) t
      else t) =
   persisted a sol (insert tid ids) t"
  by (simp add: persisted_def)

lemma save_schedule_return:
  assumes "save_schedule a sol tvs c = Inr c'"
    and "\<forall>(tid, tv) \<in> set tvs. tv_start tv = StartVar tid \<and> tv_end tv = EndVar tid"
  shows "c' = c\<lparr>working := (working c)\<lparr>tasks :=
            map (persisted a sol (fst ` set tvs)) (tasks (working c))\<rparr>\<rparr>"
  using assms
proof (induction tvs arbitrary: c)
  case Nil
  have "map (persisted a sol {}) ts = ts" for ts
    by (induction ts) (simp_all add: persisted_def)
  with Nil show ?case by simp
next
  case (Cons x tvs)
  obtain tid tv where x: "x = (tid, tv)" by (cases x)
  from Cons.prems(2) x have tv: "tv_start tv = StartVar tid" "tv_end tv = EndVar tid"
    and rest: "\<forall>(tid, tv) \<in> set tvs. tv_start tv = StartVar tid \<and> tv_end tv = EndVar tid"
    by auto
  from Cons.prems(1) obtain st en where
    st: "offset_time a (sol (StartVar tid)) = Inr st" and
    en: "offset_time a (sol (EndVar tid)) = Inr en" and
    go: "save_schedule a sol tvs (execute_update_schedule st en tid c) = Inr c'"
    unfolding x by (auto simp: tv split: sum.splits)
  note s = offset_time_Inr [OF st] and e = offset_time_Inr [OF en]
  have "map (persisted a sol (fst ` set tvs))
          (map (\<lambda>t. if task_id t = tid then schedule_task st en t else t) ts) =
        map (persisted a sol (fst ` set (x # tvs))) ts" for ts
    unfolding map_map comp_def s e persisted_step by (simp add: x)
  with Cons.IH [OF go rest] show ?case
    by (simp add: execute_update_schedule_def)
qed

lemma save_schedule_total:
  assumes "\<forall>(tid, tv) \<in> set tvs. \<not> isl (offset_time a (sol (tv_start tv))) \<and>
                                   \<not> isl (offset_time a (sol (tv_end tv)))"
  shows "\<exists>c'. save_schedule a sol tvs c = Inr c'"
  using assms
proof (induction tvs arbitrary: c)
  case Nil
  then show ?case by simp
next
  case (Cons x tvs)
  obtain tid tv where x: "x = (tid, tv)" by (cases x)
  from Cons.prems x obtain st en where
    "offset_time a (sol (tv_start tv)) = Inr st" "offset_time a (sol (tv_end tv)) = Inr en"
    by (cases "offset_time a (sol (tv_start tv))"; cases "offset_time a (sol (tv_end tv))") auto
  moreover from Cons.prems have
    "\<forall>(tid, tv) \<in> set tvs. \<not> isl (offset_time a (sol (tv_start tv))) \<and>
                            \<not> isl (offset_time a (sol (tv_end tv)))"
    by simp
  ultimately show ?case
    unfolding x using Cons.IH by simp
qed

lemma save_schedule_fails:
  assumes "save_schedule a sol tvs c = Inr c'" and "(tid, tv) \<in> set tvs"
  shows "\<not> isl (offset_time a (sol (tv_start tv))) \<and> \<not> isl (offset_time a (sol (tv_end tv)))"
  using assms
proof (induction tvs arbitrary: c)
  case Nil
  then show ?case by simp
next
  case (Cons x tvs)
  obtain tid' tv' where x: "x = (tid', tv')" by (cases x)
  from Cons.prems show ?case
    unfolding x by (auto split: sum.splits dest: Cons.IH)
qed

lemma task_vars_of_shape:
  "\<forall>(tid, tv) \<in> set (task_vars_of ts). tv_start tv = StartVar tid \<and> tv_end tv = EndVar tid"
  by (auto simp: task_vars_of_def mk_task_var_def)

lemma task_vars_of_keys: "fst ` set (task_vars_of ts) = fst ` set ts"
  by (force simp: task_vars_of_def)

lemma save_schedule_task_vars:
  "save_schedule a sol (task_vars_of ts) c =
     (if materializable a sol (fst ` set ts)
      then Inr (c\<lparr>working := (working c)\<lparr>tasks :=
              map (persisted a sol (fst ` set ts)) (tasks (working c))\<rparr>\<rparr>)
      else save_schedule a sol (task_vars_of ts) c) \<and>
   (\<not> materializable a sol (fst ` set ts) \<longrightarrow> isl (save_schedule a sol (task_vars_of ts) c))"
proof (cases "materializable a sol (fst ` set ts)")
  case True
  then have "\<forall>(tid, tv) \<in> set (task_vars_of ts). \<not> isl (offset_time a (sol (tv_start tv))) \<and>
                                   \<not> isl (offset_time a (sol (tv_end tv)))"
    unfolding materializable_def task_vars_of_def mk_task_var_def by force
  from save_schedule_total [OF this, of c] obtain c' where
    c': "save_schedule a sol (task_vars_of ts) c = Inr c'" ..
  from save_schedule_return [OF c' task_vars_of_shape] True c' show ?thesis
    by (simp add: task_vars_of_keys)
next
  case False
  then obtain tid where tid: "tid \<in> fst ` set ts"
    and bad: "isl (offset_time a (sol (StartVar tid))) \<or> isl (offset_time a (sol (EndVar tid)))"
    unfolding materializable_def by blast
  from tid obtain data where "(tid, data) \<in> set ts" by auto
  then have mem: "(tid, mk_task_var tid data) \<in> set (task_vars_of ts)"
    unfolding task_vars_of_def by force
  have "isl (save_schedule a sol (task_vars_of ts) c)"
  proof (cases "save_schedule a sol (task_vars_of ts) c")
    case (Inl x)
    then show ?thesis by simp
  next
    case (Inr c')
    from save_schedule_fails [OF Inr mem] bad show ?thesis
      by (simp add: mk_task_var_def)
  qed
  with False show ?thesis by simp
qed

lemma connect_simps [simp]: "committed (connect d) = d" "working (connect d) = d"
  by (simp_all add: connect_def)

lemma run_optimization_outcome:
  assumes body: "request_data body = Inr data"
    and anchor: "parse_start_time strptime now (map_of data ''start_time'') = Inr t"
    and solve: "solver (optimizer_model (connect d)) = (st, sol)"
  shows "run_optimization strptime now solver True d body =
     (if assembled_task_ids (connect d) = {} then (d, reply 200)
      else if st = OPTIMAL \<or> st = FEASIBLE then
        (if materializable (round_to_minute t) sol (assembled_task_ids (connect d))
         then (d\<lparr>tasks := map (persisted (round_to_minute t) sol (assembled_task_ids (connect d)))
                    (tasks d)\<rparr>, optimal_response sol)
         else (d, reply 500))
      else (d, infeasible_response))"
proof -
  let ?c = "connect d"
  let ?ms = "dict_of machine_id capacity (select_machines ?c)"
  let ?ts = "dict_of task_id task_data_of (select_tasks ?c)"
  let ?ps = "select_precedences ?c"
  let ?a = "round_to_minute t"
  have fetch: "fetch_scheduling_data ?c = (?ms, ?ts, ?ps)"
    by (simp add: fetch_scheduling_data_def)
  have ids: "assembled_task_ids ?c = fst ` set ?ts"
    by (simp add: assembled_task_ids_def fetch)
  have model: "build_model ?ms ?ts ?ps = (optimizer_model ?c, task_vars_of ?ts)"
    using build_model_task_vars [OF dict_of_distinct, of ?ms task_id task_data_of "select_tasks ?c" ?ps]
    by (simp add: optimizer_model_def fetch prod_eq_iff)
  have empty: "?ts = [] \<longleftrightarrow> assembled_task_ids ?c = {}"
    by (simp add: ids)
  have tr: "optimization_try strptime now solver ?c body =
     (if ?ts = [] then Inr (?c, reply 200)
      else if st = OPTIMAL \<or> st = FEASIBLE then
        (case save_schedule ?a sol (task_vars_of ?ts) ?c of
           Inl (e, c') \<Rightarrow> Inl (e, c')
         | Inr c' \<Rightarrow> Inr (commit c', optimal_response sol))
      else Inr (?c, infeasible_response))"
    unfolding optimal_response_def infeasible_response_def
    by (simp add: optimization_try_def body anchor fetch model solve Let_def)
  note ss = save_schedule_task_vars [of ?a sol ?ts ?c]
  have run: "run_optimization strptime now solver True d body =
     (case optimization_try strptime now solver ?c body of
        Inl (e, c') \<Rightarrow> (close (rollback c'), reply 500)
      | Inr (c', r) \<Rightarrow> (close c', r))"
    by (simp add: run_optimization_def get_db_connection_def)
  show ?thesis
  proof (cases "?ts = []")
    case True
    then have e: "assembled_task_ids ?c = {}" by (simp add: ids)
    from True show ?thesis
      unfolding run tr e by (simp add: close_def)
  next
    case ne: False
    then have e: "assembled_task_ids ?c \<noteq> {}" by (simp add: ids)
    show ?thesis
    proof (cases "st = OPTIMAL \<or> st = FEASIBLE")
      case no: False
      with ne e show ?thesis
        unfolding run tr by (simp add: close_def)
    next
      case ok: True
      show ?thesis
      proof (cases "materializable ?a sol (assembled_task_ids ?c)")
        case True
        with ss have sv: "save_schedule ?a sol (task_vars_of ?ts) ?c =
            Inr (?c\<lparr>working := (working ?c)\<lparr>tasks :=
              map (persisted ?a sol (assembled_task_ids ?c)) (tasks (working ?c))\<rparr>\<rparr>)"
          unfolding ids by simp
        have "run_optimization strptime now solver True d body =
            (d\<lparr>tasks := map (persisted ?a sol (assembled_task_ids ?c)) (tasks d)\<rparr>,
             optimal_response sol)"
          unfolding run tr sv using ne ok by (simp add: close_def commit_def)
        with e ok True show ?thesis by simp
      next
        case False
        with ss have "isl (save_schedule ?a sol (task_vars_of ?ts) ?c)"
          unfolding ids by simp
        then obtain e' c' where r: "save_schedule ?a sol (task_vars_of ?ts) ?c = Inl (e', c')"
          by (cases "save_schedule ?a sol (task_vars_of ?ts) ?c") auto
        from save_schedule_raise [OF r] have cm: "committed c' = d"
          by simp
        have "run_optimization strptime now solver True d body = (d, reply 500)"
          unfolding run tr r using ne ok cm by (simp add: close_def rollback_def)
        with e ok False show ?thesis by simp
      qed
    qed
  qed
qed

lemma persisted_none: "map (persisted a sol {}) ts = ts"
  by (induction ts) (simp_all add: persisted_def)

lemma run_optimization_unchanged_or_optimal:
  "fst (run_optimization strptime now solver reachable d body) = d \<or>
   (code (snd (run_optimization strptime now solver reachable d body)) = 200 \<and>
    status_field (snd (run_optimization strptime now solver reachable d body)) = Some ''OPTIMAL'')"
proof (cases reachable)
  case False
  then show ?thesis by (simp add: run_optimization_def get_db_connection_def)
next
  case True
  show ?thesis
  proof (cases "request_data body")
    case (Inl e)
    with True show ?thesis
      by (simp add: run_optimization_def get_db_connection_def optimization_try_def
          close_def rollback_def)
  next
    case (Inr data)
    show ?thesis
    proof (cases "parse_start_time strptime now (map_of data ''start_time'')")
      case (Inl e)
      with True Inr show ?thesis
        by (cases e)
           (simp_all add: run_optimization_def get_db_connection_def optimization_try_def
             close_def rollback_def)
    next
      case anchor: (Inr t)
      obtain st sol where solve: "solver (optimizer_model (connect d)) = (st, sol)"
        by (cases "solver (optimizer_model (connect d))")
      from True have r: "reachable = True" by simp
      show ?thesis
        unfolding r run_optimization_outcome [where solver = solver, OF Inr anchor solve]
        by (simp add: optimal_response_def)
    qed
  qed
qed

section \<open>Row counts\<close>

lemma rowcount_zero:
  "filter (\<lambda>t. task_id t = tid) ts = [] \<longleftrightarrow> tid \<notin> task_id ` set ts"
  by (auto simp: filter_empty_conv)

lemma update_absent:
  "tid \<notin> task_id ` set ts \<Longrightarrow> map (\<lambda>t. if task_id t = tid then f t else t) ts = ts"
  by (induction ts) auto

section \<open>The latest end time of a machine\<close>

lemma sql_max_eq:
  "sql_max xs =
     (if {x. Some x \<in> set xs} = {} then None else Some (Max {x. Some x \<in> set xs}))"
proof (induction xs rule: sql_max.induct)
  case 1
  then show ?case by simp
next
  case (2 xs)
  then show ?case by simp
next
  case (3 x xs)
  have fin: "finite {y. Some y \<in> set xs}"
  proof -
    have "{y. Some y \<in> set xs} \<subseteq> the ` set xs" by force
    then show ?thesis by (rule finite_subset) simp
  qed
  have ins: "{y. Some y \<in> set (Some x # xs)} = insert x {y. Some y \<in> set xs}"
    by auto
  show ?case
  proof (cases "{y. Some y \<in> set xs} = {}")
    case True
    with 3 ins show ?thesis by simp
  next
    case False
    with 3 have "sql_max xs = Some (Max {y. Some y \<in> set xs})" by simp
    with False fin show ?thesis
      unfolding ins by (simp add: max.commute)
  qed
qed

lemma machine_ends_eq:
  "{x. Some x \<in> set (map end_time (filter (\<lambda>t. required_machine_id t = m_id) (tasks (working c))))} =
   machine_ends c m_id"
  by (auto simp: machine_ends_def) force

lemma latest_end_time:
  "sql_max (map end_time (filter (\<lambda>t. required_machine_id t = m_id) (tasks (working c)))) =
     (if machine_ends c m_id = {} then None else Some (Max (machine_ends c m_id)))"
  unfolding sql_max_eq machine_ends_eq ..

lemma calculate_sequential_schedule_eq:
  "calculate_sequential_schedule now c m_id dur =
     (case timedelta_hours dur of
        Inl e \<Rightarrow> Inl e
      | Inr delta \<Rightarrow>
          (case datetime_add
                  (round_to_minute (if machine_ends c m_id = {} then now else Max (machine_ends c m_id)))
                  delta of
             Inl e \<Rightarrow> Inl e
           | Inr fin \<Rightarrow>
               Inr (round_to_minute (if machine_ends c m_id = {} then now else Max (machine_ends c m_id)),
                    fin)))"
  unfolding calculate_sequential_schedule_def latest_end_time
  by (simp add: Let_def split: sum.splits)

section \<open>The stores that the handlers leave\<close>







section \<open>Precedence constraints\<close>

text \<open>
  Claim C1. For a precedence edge whose predecessor and successor are both in the
  assembled task set, the model built for /api/optimize contains the inequality
  \<open>start(succ) \<ge> end(pred)\<close>, and every assignment that satisfies the model, which is what
  a successful solve returns, has \<open>end(pred) \<le> start(succ)\<close>.
\<close>

theorem precedence_enforced:
  assumes edge: "(p, s) \<in> set (select_precedences c)"
    and p: "p \<in> assembled_task_ids c" and s: "s \<in> assembled_task_ids c"
    and sat: "satisfies (optimizer_model c) sol"
  shows "GreaterOrEqual (StartVar s) (EndVar p) \<in> set (constraints (optimizer_model c)) \<and>
         sol (EndVar p) \<le> sol (StartVar s)"
proof -
  have "(p, s) \<in> set (filter (\<lambda>(p, s). p \<in> assembled_task_ids c \<and> s \<in> assembled_task_ids c)
         (select_precedences c))"
    using edge p s by simp
  then have "GreaterOrEqual (StartVar s) (EndVar p) \<in>
      set (map (\<lambda>(p, s). GreaterOrEqual (StartVar s) (EndVar p))
       (filter (\<lambda>(p, s). p \<in> assembled_task_ids c \<and> s \<in> assembled_task_ids c)
         (select_precedences c)))"
    by (force simp del: set_filter)
  then have mem: "GreaterOrEqual (StartVar s) (EndVar p) \<in> set (constraints (optimizer_model c))"
    by (simp add: optimizer_model_constraints)
  from satisfies_constraint [OF sat mem] have "sol (EndVar p) \<le> sol (StartVar s)"
    by simp
  with mem show ?thesis by simp
qed

theorem precedence_enforced_witness:
  "(1, 2) \<in> set (select_precedences (connect example_store)) \<and>
   1 \<in> assembled_task_ids (connect example_store) \<and>
   2 \<in> assembled_task_ids (connect example_store) \<and>
   satisfies (optimizer_model (connect example_store)) example_solution \<and>
   GreaterOrEqual (StartVar 2) (EndVar 1)
     \<in> set (constraints (optimizer_model (connect example_store))) \<and>
   example_solution (EndVar 1) \<le> example_solution (StartVar 2)"
proof -
  have edge: "(1, 2) \<in> set (select_precedences (connect example_store))"
    by code_simp
  have p: "1 \<in> assembled_task_ids (connect example_store)"
    by code_simp
  have s: "2 \<in> assembled_task_ids (connect example_store)"
    by code_simp
  have sat: "satisfies (optimizer_model (connect example_store)) example_solution"
    by code_simp
  from precedence_enforced [OF edge p s sat] edge p s sat show ?thesis
    by blast
qed

section \<open>Machine exclusivity\<close>

text \<open>
  Claim C2. With task ids and machine ids distinct (they are primary keys), the no-overlap
  constraints of the model are, in order, one for each machine of capacity 1, over the
  intervals of all assembled tasks that require the machine; a machine of any other
  capacity gets none. So in every assignment that satisfies the model, two different tasks
  on a machine of capacity 1 do not overlap: one ends at or before the start of the other.
\<close>

theorem machine_exclusivity:
  assumes t: "distinct (map task_id (tasks (working c)))"
    and m: "distinct (map machine_id (machines (working c)))"
    and sat: "satisfies (optimizer_model c) sol"
  shows "exclusivity_groups (constraints (optimizer_model c)) =
           map (\<lambda>m. machine_group c (machine_id m))
             (filter (\<lambda>m. capacity m = 1) (select_machines c)) \<and>
         (\<forall>m \<in> set (machines (working c)). capacity m = 1 \<longrightarrow>
            NoOverlap (machine_group c (machine_id m)) \<in> set (constraints (optimizer_model c)) \<and>
            (\<forall>t1 \<in> set (select_tasks c). \<forall>t2 \<in> set (select_tasks c).
               required_machine_id t1 = machine_id m \<and> required_machine_id t2 = machine_id m \<and>
               task_id t1 \<noteq> task_id t2 \<longrightarrow>
               sol (EndVar (task_id t1)) \<le> sol (StartVar (task_id t2)) \<or>
               sol (EndVar (task_id t2)) \<le> sol (StartVar (task_id t1))))"
proof (intro conjI ballI impI)
  show g: "exclusivity_groups (constraints (optimizer_model c)) =
           map (\<lambda>m. machine_group c (machine_id m))
             (filter (\<lambda>m. capacity m = 1) (select_machines c))"
    by (rule exclusivity_groups_model [OF t m])
  fix mc assume mc: "mc \<in> set (machines (working c))" and cap: "capacity mc = 1"
  from mc cap have "machine_group c (machine_id mc) \<in> set (exclusivity_groups (constraints (optimizer_model c)))"
    unfolding g by (force simp: select_machines_def)
  then show mem: "NoOverlap (machine_group c (machine_id mc)) \<in> set (constraints (optimizer_model c))"
    by (simp add: exclusivity_groups_member)
  from satisfies_constraint [OF sat mem]
  have no: "no_overlap sol (machine_group c (machine_id mc))" by simp
  fix t1 t2
  assume t1: "t1 \<in> set (select_tasks c)" and t2: "t2 \<in> set (select_tasks c)"
    and req: "required_machine_id t1 = machine_id mc \<and> required_machine_id t2 = machine_id mc \<and>
              task_id t1 \<noteq> task_id t2"
  have i1: "(StartVar (task_id t1), minutes_of_hours (duration_hours t1), EndVar (task_id t1))
      \<in> set (machine_group c (machine_id mc))"
    using t1 req unfolding machine_group_def by force
  have i2: "(StartVar (task_id t2), minutes_of_hours (duration_hours t2), EndVar (task_id t2))
      \<in> set (machine_group c (machine_id mc))"
    using t2 req unfolding machine_group_def by force
  from no_overlap_pair [OF no i1 i2] req
  show "sol (EndVar (task_id t1)) \<le> sol (StartVar (task_id t2)) \<or>
        sol (EndVar (task_id t2)) \<le> sol (StartVar (task_id t1))"
    by simp
qed


theorem machine_exclusivity_witness:
  "distinct (map task_id (tasks (working (connect example_store)))) \<and>
   distinct (map machine_id (machines (working (connect example_store)))) \<and>
   satisfies (optimizer_model (connect example_store)) example_solution \<and>
   exclusivity_groups (constraints (optimizer_model (connect example_store))) =
     [[(StartVar 1, 120, EndVar 1), (StartVar 2, 90, EndVar 2)]] \<and>
   NoOverlap [(StartVar 1, 120, EndVar 1), (StartVar 2, 90, EndVar 2)]
     \<in> set (constraints (optimizer_model (connect example_store)))"
proof -
  have t: "distinct (map task_id (tasks (working (connect example_store))))"
    by code_simp
  have m: "distinct (map machine_id (machines (working (connect example_store))))"
    by code_simp
  have sat: "satisfies (optimizer_model (connect example_store)) example_solution"
    by code_simp
  note th = machine_exclusivity [OF t m sat]
  have rhs: "map (\<lambda>m. machine_group (connect example_store) (machine_id m))
       (filter (\<lambda>m. capacity m = 1) (select_machines (connect example_store))) =
     [[(StartVar 1, 120, EndVar 1), (StartVar 2, 90, EndVar 2)]]"
    by code_simp
  have lathe: "\<lparr>machine_id = 1, machine_name = ''Lathe'', capacity = 1\<rparr>
      \<in> set (machines (working (connect example_store)))"
    by (simp add: connect_def example_store_def)
  have grp: "machine_group (connect example_store) 1 =
      [(StartVar 1, 120, EndVar 1), (StartVar 2, 90, EndVar 2)]"
    by code_simp
  from th [THEN conjunct1] rhs
  have g: "exclusivity_groups (constraints (optimizer_model (connect example_store))) =
     [[(StartVar 1, 120, EndVar 1), (StartVar 2, 90, EndVar 2)]]"
    by simp
  from th [THEN conjunct2, rule_format, OF lathe] grp
  have n: "NoOverlap [(StartVar 1, 120, EndVar 1), (StartVar 2, 90, EndVar 2)]
     \<in> set (constraints (optimizer_model (connect example_store)))"
    by simp
  from t m sat g n show ?thesis by simp
qed

section \<open>Adding a precedence edge\<close>

text \<open>
  Claim C3. The handler of POST /precedences is meant to insert the edge and answer 201
  when the body has both ids. It does not: for every body whose two ids are present (and
  truthy, as the handler tests them), it answers 500 and the store is unchanged, because
  \<^verbatim>\<open>cur.execute\<close> is called with the keyword argument \<^verbatim>\<open>predecessor_id\<close> in place of the
  parameters of the statement.
\<close>

theorem add_precedence_always_fails:
  assumes "truthy_opt (map_of data ''predecessor_id'')"
    and "truthy_opt (map_of data ''successor_id'')"
  shows "add_precedence True d (JObj data) = (d, reply 500)"
  using assms
  by (simp add: add_precedence_def get_db_connection_def execute_insert_precedence_def)

theorem add_precedence_always_fails_witness:
  "truthy_opt (map_of [(''predecessor_id'', JInt 1), (''successor_id'', JInt 2)] ''predecessor_id'') \<and>
   truthy_opt (map_of [(''predecessor_id'', JInt 1), (''successor_id'', JInt 2)] ''successor_id'') \<and>
   add_precedence True example_store
     (JObj [(''predecessor_id'', JInt 1), (''successor_id'', JInt 2)]) = (example_store, reply 500)"
proof -
  have p: "truthy_opt (map_of [(''predecessor_id'', JInt 1), (''successor_id'', JInt 2)] ''predecessor_id'')"
    by simp
  have s: "truthy_opt (map_of [(''predecessor_id'', JInt 1), (''successor_id'', JInt 2)] ''successor_id'')"
    by simp
  from add_precedence_always_fails [OF p s, of example_store] p s show ?thesis
    by simp
qed

section \<open>Materializing the schedule\<close>

text \<open>
  Claim C4. Let the request have a body and an anchor that parse, and let the solver answer
  \<open>(st, sol)\<close> on the model of the store. If \<open>st\<close> is \<open>OPTIMAL\<close> or \<open>FEASIBLE\<close>, then either the
  run answers 200 and the store has, for every assembled task, start = anchor + start
  offset in minutes, end = anchor + end offset in minutes and status \<open>Scheduled\<close>, every other
  row being as before (this is the case when all these timestamps are datetimes), or it
  answers 500 and the store is as before, whatever was updated before the failure being
  rolled back. With any other status and a backlog that is not empty, the run answers 400
  and the store is as before.
\<close>

theorem materialized_atomically:
  assumes body: "request_data body = Inr data"
    and anchor: "parse_start_time strptime now (map_of data ''start_time'') = Inr t"
    and solve: "solver (optimizer_model (connect d)) = (st, sol)"
  shows "(st = OPTIMAL \<or> st = FEASIBLE \<longrightarrow>
           (materializable (round_to_minute t) sol (assembled_task_ids (connect d)) \<longrightarrow>
              fst (run_optimization strptime now solver True d body) =
                d\<lparr>tasks := map (persisted (round_to_minute t) sol (assembled_task_ids (connect d)))
                      (tasks d)\<rparr> \<and>
              code (snd (run_optimization strptime now solver True d body)) = 200) \<and>
           (\<not> materializable (round_to_minute t) sol (assembled_task_ids (connect d)) \<longrightarrow>
              run_optimization strptime now solver True d body = (d, reply 500))) \<and>
         (st \<noteq> OPTIMAL \<and> st \<noteq> FEASIBLE \<and> assembled_task_ids (connect d) \<noteq> {} \<longrightarrow>
            run_optimization strptime now solver True d body = (d, infeasible_response) \<and>
            code infeasible_response = 400) \<and>
         (\<forall>row \<in> set (tasks d). task_id row \<in> assembled_task_ids (connect d) \<longrightarrow>
            persisted (round_to_minute t) sol (assembled_task_ids (connect d)) row =
              row\<lparr>start_time := Some (round_to_minute t + sol (StartVar (task_id row)) * 60000000),
                  end_time := Some (round_to_minute t + sol (EndVar (task_id row)) * 60000000),
                  status := ''Scheduled''\<rparr>)"
proof -
  note out = run_optimization_outcome [where solver = solver, OF body anchor solve]
  have e: "materializable (round_to_minute t) sol {}"
    by (simp add: materializable_def)
  have "d\<lparr>tasks := tasks d\<rparr> = d" by simp
  then show ?thesis
    unfolding out
    by (auto simp: persisted_none e optimal_response_def infeasible_response_def reply_def
        persisted_def schedule_task_def)
qed


theorem materialized_atomically_witness:
  "request_data None = Inr [] \<and>
   parse_start_time example_strptime example_now (map_of [] ''start_time'') =
     Inr 1699999980000000 \<and>
   example_solver (optimizer_model (connect example_store)) = (FEASIBLE, example_solution) \<and>
   run_optimization example_strptime example_now example_solver True example_store None =
     (example_store\<lparr>tasks := example_scheduled\<rparr>,
      \<lparr>code = 200, status_field = Some ''OPTIMAL'', makespan_minutes = Some 210\<rparr>) \<and>
   request_data (Some (JObj [(''start_time'', JStr ''9999-12-31T21:30:00.000'')])) =
     Inr [(''start_time'', JStr ''9999-12-31T21:30:00.000'')] \<and>
   parse_start_time example_strptime example_now
       (map_of [(''start_time'', JStr ''9999-12-31T21:30:00.000'')] ''start_time'') =
     Inr 253402291800000000 \<and>
   run_optimization example_strptime example_now example_solver True example_store
       (Some (JObj [(''start_time'', JStr ''9999-12-31T21:30:00.000'')])) =
     (example_store, reply 500)"
proof -
  let ?ids = "assembled_task_ids (connect example_store)"
  have body: "request_data None = Inr []"
    by (simp add: request_data_def)
  have anchor: "parse_start_time example_strptime example_now (map_of [] ''start_time'') =
      Inr 1699999980000000"
    by (simp add: parse_start_time_def round_to_minute_def example_now_def)
  have solve: "example_solver (optimizer_model (connect example_store)) =
      (FEASIBLE, example_solution)"
    by (simp add: example_solver_def)
  have r: "round_to_minute 1699999980000000 = 1699999980000000"
    by (simp add: round_to_minute_def)
  have m: "materializable 1699999980000000 example_solution ?ids"
    by code_simp
  have p: "map (persisted 1699999980000000 example_solution ?ids) (tasks example_store) =
      example_scheduled"
    by code_simp
  note th = materialized_atomically [where solver = example_solver, OF body anchor solve,
      unfolded r]
  from th m have "fst (run_optimization example_strptime example_now example_solver True
        example_store None) =
      example_store\<lparr>tasks := map (persisted 1699999980000000 example_solution ?ids)
        (tasks example_store)\<rparr>"
    by simp
  then have f: "fst (run_optimization example_strptime example_now example_solver True
        example_store None) = example_store\<lparr>tasks := example_scheduled\<rparr>"
    unfolding p .
  have s: "snd (run_optimization example_strptime example_now example_solver True
        example_store None) =
      \<lparr>code = 200, status_field = Some ''OPTIMAL'', makespan_minutes = Some 210\<rparr>"
    by code_simp
  have ok: "run_optimization example_strptime example_now example_solver True example_store None =
     (example_store\<lparr>tasks := example_scheduled\<rparr>,
      \<lparr>code = 200, status_field = Some ''OPTIMAL'', makespan_minutes = Some 210\<rparr>)"
    using f s by (simp add: prod_eq_iff)
  let ?late = "[(''start_time'', JStr ''9999-12-31T21:30:00.000'')]"
  have body': "request_data (Some (JObj ?late)) = Inr ?late"
    by (simp add: request_data_def)
  have anchor': "parse_start_time example_strptime example_now (map_of ?late ''start_time'') =
      Inr 253402291800000000"
    by (simp add: parse_start_time_def example_strptime_def)
  have r': "round_to_minute 253402291800000000 = 253402291800000000"
    by (simp add: round_to_minute_def)
  have m': "\<not> materializable 253402291800000000 example_solution ?ids"
    by code_simp
  note th' = materialized_atomically [where solver = example_solver, OF body' anchor' solve,
      unfolded r']
  from th' m' have bad: "run_optimization example_strptime example_now example_solver True
       example_store (Some (JObj ?late)) = (example_store, reply 500)"
    by simp
  from body anchor solve ok body' anchor' bad show ?thesis
    by simp
qed

section \<open>The invariant of scheduled and completed tasks\<close>





section \<open>The sequential estimate\<close>

text \<open>
  Claim C6. When the estimator returns, the start is the greatest end timestamp of the
  tasks bound to the machine, whatever their status, or the current instant when there is
  none, rounded down to the minute, and the end is the start plus the duration. It does
  return when that end is a datetime. In particular, when the machine has one task, ending
  at \<open>T\<close>, a task of 2 hours gets the start \<open>T\<close> rounded down to the minute and the end 2
  hours after the start. Rounding down to the minute gives a whole minute, at most one
  minute before the timestamp.
\<close>

theorem sequential_estimate:
  "(calculate_sequential_schedule now c m_id dur = Inr (start, fin) \<longrightarrow>
      start = round_to_minute (if machine_ends c m_id = {} then now else Max (machine_ends c m_id)) \<and>
      timedelta_hours dur = Inr (fin - start)) \<and>
   (timedelta_hours dur = Inr delta \<and>
    datetime_min \<le>
      round_to_minute (if machine_ends c m_id = {} then now else Max (machine_ends c m_id)) + delta \<and>
    round_to_minute (if machine_ends c m_id = {} then now else Max (machine_ends c m_id)) + delta
      \<le> datetime_max \<longrightarrow>
      calculate_sequential_schedule now c m_id dur =
        Inr (round_to_minute (if machine_ends c m_id = {} then now else Max (machine_ends c m_id)),
             round_to_minute (if machine_ends c m_id = {} then now else Max (machine_ends c m_id)) + delta)) \<and>
   (filter (\<lambda>t. required_machine_id t = m_id) (tasks (working c)) = [t0] \<and> end_time t0 = Some T \<and>
    datetime_min \<le> round_to_minute T + 7200000000 \<and>
    round_to_minute T + 7200000000 \<le> datetime_max \<longrightarrow>
      calculate_sequential_schedule now c m_id 2 =
        Inr (round_to_minute T, round_to_minute T + 7200000000)) \<and>
   round_to_minute x \<le> x \<and> x < round_to_minute x + 60000000 \<and>
   round_to_minute x mod 60000000 = 0"
proof -
  define A where "A = round_to_minute (if machine_ends c m_id = {} then now else Max (machine_ends c m_id))"
  have eq: "calculate_sequential_schedule now c m_id dur =
     (case timedelta_hours dur of
        Inl e \<Rightarrow> Inl e
      | Inr delta \<Rightarrow>
          (case datetime_add A delta of Inl e \<Rightarrow> Inl e | Inr fin \<Rightarrow> Inr (A, fin)))"
    unfolding A_def by (rule calculate_sequential_schedule_eq)
  have r1: "calculate_sequential_schedule now c m_id dur = Inr (start, fin) \<longrightarrow>
      start = A \<and> timedelta_hours dur = Inr (fin - start)"
    unfolding eq by (auto simp: datetime_add_def split: sum.splits if_splits)
  have r2: "timedelta_hours dur = Inr delta \<and> datetime_min \<le> A + delta \<and> A + delta \<le> datetime_max \<longrightarrow>
      calculate_sequential_schedule now c m_id dur = Inr (A, A + delta)"
    unfolding eq by (simp add: datetime_add_def)
  have two: "timedelta_hours 2 = Inr 7200000000"
    by code_simp
  have r3: "filter (\<lambda>t. required_machine_id t = m_id) (tasks (working c)) = [t0] \<and>
      end_time t0 = Some T \<and>
      datetime_min \<le> round_to_minute T + 7200000000 \<and>
      round_to_minute T + 7200000000 \<le> datetime_max \<longrightarrow>
      calculate_sequential_schedule now c m_id 2 =
        Inr (round_to_minute T, round_to_minute T + 7200000000)"
    unfolding calculate_sequential_schedule_def by (simp add: two datetime_add_def Let_def)
  have r4: "round_to_minute x \<le> x" "x < round_to_minute x + 60000000"
    "round_to_minute x mod 60000000 = 0"
    unfolding round_to_minute_def by (simp_all add: minus_mod_eq_mult_div)
  from r1 r2 r3 r4 show ?thesis
    unfolding A_def by blast
qed


theorem sequential_estimate_witness:
  "machine_ends (connect example_store) 1 = {3600000000} \<and>
   calculate_sequential_schedule example_now (connect example_store) 1 2 =
     Inr (3600000000, 10800000000) \<and>
   machine_ends (connect example_store) 2 = {} \<and>
   timedelta_hours (3 / 2) = Inr 5400000000 \<and>
   calculate_sequential_schedule example_now (connect example_store) 2 (3 / 2) =
     Inr (1699999980000000, 1700005380000000)"
proof -
  have e1: "machine_ends (connect example_store) 1 = {3600000000}"
    by (auto simp: machine_ends_def connect_def example_store_def)
  have e2: "machine_ends (connect example_store) 2 = {}"
    by (auto simp: machine_ends_def connect_def example_store_def)
  have two: "timedelta_hours 2 = Inr 7200000000"
    by code_simp
  have half: "timedelta_hours (3 / 2) = Inr 5400000000"
    by code_simp
  have r1: "round_to_minute 3600000000 = 3600000000"
    and r2: "round_to_minute example_now = 1699999980000000"
    by (simp_all add: round_to_minute_def example_now_def)
  note th1 = sequential_estimate [of example_now "connect example_store" 1 2 _ _ 7200000000,
      THEN conjunct2, THEN conjunct1, unfolded e1]
  note th2 = sequential_estimate [of example_now "connect example_store" 2 "3 / 2" _ _ 5400000000,
      THEN conjunct2, THEN conjunct1, unfolded e2]
  from th1 two have a: "calculate_sequential_schedule example_now (connect example_store) 1 2 =
     Inr (3600000000, 10800000000)"
    by (simp add: r1 datetime_min_def datetime_max_def)
  from th2 half have b: "calculate_sequential_schedule example_now (connect example_store) 2 (3 / 2) =
     Inr (1699999980000000, 1700005380000000)"
    by (simp add: r2 datetime_min_def datetime_max_def)
  from e1 e2 half a b show ?thesis by simp
qed

section \<open>The assembled backlog\<close>

text \<open>
  Claim C7. The tasks assembled into the model are exactly those whose status is neither
  \<open>Completed\<close> nor \<open>Scheduled\<close>: the model has an interval for these and for no other
  task. All machines and all precedence edges are loaded. A precedence constraint is in the
  model exactly for the edges with both endpoints among the assembled tasks; an edge with
  an endpoint outside them leaves no trace, the model being the one built without it (the
  builder's loops are total functions and have no error result).
\<close>

theorem assembled_backlog:
  "assembled_task_ids c =
     {task_id t |t. t \<in> set (tasks (working c)) \<and>
        status t \<noteq> ''Completed'' \<and> status t \<noteq> ''Scheduled''} \<and>
   fst ` set (fst (fetch_scheduling_data c)) = machine_id ` set (machines (working c)) \<and>
   snd (snd (fetch_scheduling_data c)) = precedences (working c) \<and>
   (\<forall>tid. (\<exists>dm. Interval (StartVar tid) dm (EndVar tid) \<in> set (constraints (optimizer_model c)))
      \<longleftrightarrow> tid \<in> assembled_task_ids c) \<and>
   (\<forall>a b. GreaterOrEqual a b \<in> set (constraints (optimizer_model c)) \<longleftrightarrow>
      (\<exists>p s. (p, s) \<in> set (precedences (working c)) \<and>
         p \<in> assembled_task_ids c \<and> s \<in> assembled_task_ids c \<and>
         a = StartVar s \<and> b = EndVar p)) \<and>
   optimizer_model c =
     optimizer_model (c\<lparr>working := (working c)\<lparr>precedences :=
        filter (\<lambda>(p, s). p \<in> assembled_task_ids c \<and> s \<in> assembled_task_ids c)
          (precedences (working c))\<rparr>\<rparr>)"
proof -
  let ?ts = "dict_of task_id task_data_of (select_tasks c)"
  have ids: "assembled_task_ids c = fst ` set ?ts"
    by (simp add: assembled_task_ids_def fetch_scheduling_data_def)
  have a: "fst ` set (fst (fetch_scheduling_data c)) = machine_id ` set (machines (working c))"
    by (simp add: fetch_scheduling_data_def Let_def dict_of_keys select_machines_def)
  have b: "snd (snd (fetch_scheduling_data c)) = precedences (working c)"
    by (simp add: fetch_scheduling_data_def Let_def select_precedences_def)
  have i: "(\<exists>dm. Interval (StartVar tid) dm (EndVar tid) \<in> set (constraints (optimizer_model c)))
      \<longleftrightarrow> tid \<in> assembled_task_ids c" for tid
    by (rule model_interval_iff)
  have g: "GreaterOrEqual a b \<in> set (constraints (optimizer_model c)) \<longleftrightarrow>
      (\<exists>p s. (p, s) \<in> set (precedences (working c)) \<and>
         p \<in> assembled_task_ids c \<and> s \<in> assembled_task_ids c \<and>
         a = StartVar s \<and> b = EndVar p)" for a b
    unfolding optimizer_model_constraints select_precedences_def by auto
  let ?c' = "c\<lparr>working := (working c)\<lparr>precedences :=
        filter (\<lambda>(p, s). p \<in> assembled_task_ids c \<and> s \<in> assembled_task_ids c)
          (precedences (working c))\<rparr>\<rparr>"
  have st: "select_tasks ?c' = select_tasks c" "select_machines ?c' = select_machines c"
    by (simp_all add: select_tasks_def select_machines_def)
  have m: "optimizer_model c = optimizer_model ?c'"
    unfolding optimizer_model_def fetch_scheduling_data_def Let_def st
    by (simp add: select_precedences_def ids
        build_model_retained [OF dict_of_distinct, of _ task_id task_data_of "select_tasks c" "precedences (working c)"])
  from assembled_task_ids_eq a b i g m show ?thesis by blast
qed


theorem assembled_backlog_witness:
  "assembled_task_ids (connect example_store) = {1, 2, 3} \<and>
   GreaterOrEqual (StartVar 2) (EndVar 1)
     \<in> set (constraints (optimizer_model (connect example_store))) \<and>
   GreaterOrEqual (StartVar 1) (EndVar 4)
     \<notin> set (constraints (optimizer_model (connect example_store)))"
proof -
  note b = assembled_backlog [of "connect example_store"]
  have "assembled_task_ids (connect example_store) =
      task_id ` set (filter (\<lambda>t. status t \<noteq> ''Completed'' \<and> status t \<noteq> ''Scheduled'')
        (tasks (working (connect example_store))))"
    unfolding b [THEN conjunct1] by auto
  also have "\<dots> = {1, 2, 3}"
    by (simp add: connect_def example_store_def)
  finally have ids: "assembled_task_ids (connect example_store) = {1, 2, 3}" .
  have ps: "precedences (working (connect example_store)) = [(1, 2), (4, 1)]"
    by (simp add: connect_def example_store_def)
  note g = b [THEN conjunct2, THEN conjunct2, THEN conjunct2, THEN conjunct2, THEN conjunct1,
      rule_format]
  have yes: "GreaterOrEqual (StartVar 2) (EndVar 1)
     \<in> set (constraints (optimizer_model (connect example_store)))"
    unfolding g ps ids by simp
  have no: "GreaterOrEqual (StartVar 1) (EndVar 4)
     \<notin> set (constraints (optimizer_model (connect example_store)))"
    unfolding g ps ids by simp
  from ids yes no show ?thesis by simp
qed

section \<open>Status updates\<close>

text \<open>
  Claim C8, as amended. For a request whose body gives a string as the status, PATCH
  /tasks/<id>/status answers 400 when the string is not one of the five status strings
  \<^verbatim>\<open>Pending\<close>, \<^verbatim>\<open>Scheduled\<close>, \<^verbatim>\<open>In Progress\<close>, \<^verbatim>\<open>Completed\<close> and \<^verbatim>\<open>Canceled\<close>, and
  otherwise 200 for a task that exists, whose status it sets, and 404 for an unknown task
  id, the store being unchanged in both failure cases.
\<close>

theorem update_task_status_codes:
  assumes "map_of data ''status'' = Some (JStr s)"
  shows "update_task_status True d tid (JObj data) =
           (if s \<notin> set valid_statuses then (d, reply 400)
            else if tid \<in> task_id ` set (tasks d)
            then (d\<lparr>tasks := map (\<lambda>t. if task_id t = tid then t\<lparr>status := s\<rparr> else t) (tasks d)\<rparr>,
                  reply 200)
            else (d, reply 404)) \<and>
         set valid_statuses =
           {''Pending'', ''Scheduled'', ''In Progress'', ''Completed'', ''Canceled''} \<and>
         distinct valid_statuses \<and> length valid_statuses = 5"
proof -
  have v: "set valid_statuses =
           {''Pending'', ''Scheduled'', ''In Progress'', ''Completed'', ''Canceled''}"
    "distinct valid_statuses" "length valid_statuses = 5"
    by (auto simp: valid_statuses_def)
  have e: "s = [] \<Longrightarrow> s \<notin> set valid_statuses"
    by (auto simp: valid_statuses_def)
  have "update_task_status True d tid (JObj data) =
           (if s \<notin> set valid_statuses then (d, reply 400)
            else if tid \<in> task_id ` set (tasks d)
            then (d\<lparr>tasks := map (\<lambda>t. if task_id t = tid then t\<lparr>status := s\<rparr> else t) (tasks d)\<rparr>,
                  reply 200)
            else (d, reply 404))"
  proof (cases "s \<in> set valid_statuses")
    case False
    with assms show ?thesis
      by (simp add: update_task_status_def)
  next
    case True
    with e have "s \<noteq> []" by blast
    with True assms show ?thesis
      by (cases "tid \<in> task_id ` set (tasks d)")
         (simp_all add: update_task_status_def get_db_connection_def execute_update_status_def
           rowcount_zero close_def commit_def update_absent)
  qed
  with v show ?thesis by simp
qed

theorem update_task_status_codes_witness:
  "map_of [(''status'', JStr ''In Progress'')] ''status'' = Some (JStr ''In Progress'') \<and>
   code (snd (update_task_status True example_store 1
     (JObj [(''status'', JStr ''In Progress'')]))) = 200 \<and>
   map (\<lambda>t. (task_id t, status t)) (tasks (fst (update_task_status True example_store 1
     (JObj [(''status'', JStr ''In Progress'')])))) =
     [(1, ''In Progress''), (2, ''In Progress''), (3, ''Canceled''), (4, ''Scheduled'')] \<and>
   update_task_status True example_store 9 (JObj [(''status'', JStr ''In Progress'')]) =
     (example_store, reply 404) \<and>
   map_of [(''status'', JStr ''Done'')] ''status'' = Some (JStr ''Done'') \<and>
   update_task_status True example_store 1 (JObj [(''status'', JStr ''Done'')]) =
     (example_store, reply 400)"
proof -
  have h: "map_of [(''status'', JStr ''In Progress'')] ''status'' = Some (JStr ''In Progress'')"
    by simp
  have h': "map_of [(''status'', JStr ''Done'')] ''status'' = Some (JStr ''Done'')"
    by simp
  have a: "''In Progress'' \<in> set valid_statuses" "''Done'' \<notin> set valid_statuses"
    by (simp_all add: valid_statuses_def)
  have i: "1 \<in> task_id ` set (tasks example_store)" "9 \<notin> task_id ` set (tasks example_store)"
    by (simp_all add: example_store_def)
  from update_task_status_codes [OF h, of example_store 1, THEN conjunct1] a i
  have r1: "update_task_status True example_store 1 (JObj [(''status'', JStr ''In Progress'')]) =
      (example_store\<lparr>tasks := map (\<lambda>t. if task_id t = 1 then t\<lparr>status := ''In Progress''\<rparr> else t)
         (tasks example_store)\<rparr>, reply 200)"
    by simp
  from update_task_status_codes [OF h, of example_store 9, THEN conjunct1] a i
  have r2: "update_task_status True example_store 9 (JObj [(''status'', JStr ''In Progress'')]) =
      (example_store, reply 404)"
    by simp
  from update_task_status_codes [OF h', of example_store 1, THEN conjunct1] a
  have r3: "update_task_status True example_store 1 (JObj [(''status'', JStr ''Done'')]) =
      (example_store, reply 400)"
    by simp
  have t: "map (\<lambda>t. (task_id t, status t))
      (map (\<lambda>t. if task_id t = 1 then t\<lparr>status := ''In Progress''\<rparr> else t)
         (tasks example_store)) =
     [(1, ''In Progress''), (2, ''In Progress''), (3, ''Canceled''), (4, ''Scheduled'')]"
    by (simp add: example_store_def)
  from h h' r2 r3 t show ?thesis
    unfolding r1 by (simp add: reply_def)
qed

text \<open>
  Claim C8 as stated names the status \<open>InProgress\<close>. The handler compares with the string
  \<^verbatim>\<open>In Progress\<close>: for task 1 of the example store, which exists, the status string
  \<^verbatim>\<open>InProgress\<close> is answered with 400 and the store is unchanged.
\<close>

theorem in_progress_needs_space:
  "1 \<in> task_id ` set (tasks example_store) \<and>
   ''InProgress'' \<notin> set valid_statuses \<and>
   update_task_status True example_store 1 (JObj [(''status'', JStr ''InProgress'')]) =
     (example_store, reply 400)"
  by (simp add: update_task_status_def valid_statuses_def example_store_def)

section \<open>The reported status\<close>

text \<open>
  Claim C9. Whenever a run of /api/optimize changes the store, it answers 200 with the
  status \<open>OPTIMAL\<close>. And whenever the solver answers \<open>OPTIMAL\<close> or \<open>FEASIBLE\<close> for a backlog
  that is not empty and the assignment can be materialized, the response is 200 with the
  status \<open>OPTIMAL\<close> and the value of the objective: a schedule that is only feasible is
  reported as \<open>OPTIMAL\<close> too.
\<close>

theorem persisted_reports_optimal:
  "(fst (run_optimization strptime now solver reachable d body) \<noteq> d \<longrightarrow>
      code (snd (run_optimization strptime now solver reachable d body)) = 200 \<and>
      status_field (snd (run_optimization strptime now solver reachable d body)) = Some ''OPTIMAL'') \<and>
   (request_data body = Inr data \<and>
    parse_start_time strptime now (map_of data ''start_time'') = Inr t \<and>
    assembled_task_ids (connect d) \<noteq> {} \<and>
    (fst (solver (optimizer_model (connect d))) = OPTIMAL \<or>
     fst (solver (optimizer_model (connect d))) = FEASIBLE) \<and>
    materializable (round_to_minute t) (snd (solver (optimizer_model (connect d))))
      (assembled_task_ids (connect d)) \<longrightarrow>
      snd (run_optimization strptime now solver True d body) =
        \<lparr>code = 200, status_field = Some ''OPTIMAL'',
         makespan_minutes = Some (snd (solver (optimizer_model (connect d))) MaxEndTime)\<rparr>)"
proof (intro conjI impI)
  assume "fst (run_optimization strptime now solver reachable d body) \<noteq> d"
  with run_optimization_unchanged_or_optimal [of strptime now solver reachable d body]
  show "code (snd (run_optimization strptime now solver reachable d body)) = 200"
    and "status_field (snd (run_optimization strptime now solver reachable d body)) = Some ''OPTIMAL''"
    by simp_all
next
  assume a: "request_data body = Inr data \<and>
    parse_start_time strptime now (map_of data ''start_time'') = Inr t \<and>
    assembled_task_ids (connect d) \<noteq> {} \<and>
    (fst (solver (optimizer_model (connect d))) = OPTIMAL \<or>
     fst (solver (optimizer_model (connect d))) = FEASIBLE) \<and>
    materializable (round_to_minute t) (snd (solver (optimizer_model (connect d))))
      (assembled_task_ids (connect d))"
  obtain st sol where solve: "solver (optimizer_model (connect d)) = (st, sol)"
    by (cases "solver (optimizer_model (connect d))")
  from a show "snd (run_optimization strptime now solver True d body) =
        \<lparr>code = 200, status_field = Some ''OPTIMAL'',
         makespan_minutes = Some (snd (solver (optimizer_model (connect d))) MaxEndTime)\<rparr>"
    using run_optimization_outcome [where solver = solver, of body data strptime now t d st sol]
    by (simp add: solve optimal_response_def)
qed

theorem persisted_reports_optimal_witness:
  "fst (run_optimization example_strptime example_now example_solver True example_store None)
     \<noteq> example_store \<and>
   fst (example_solver (optimizer_model (connect example_store))) = FEASIBLE \<and>
   status_field (snd (run_optimization example_strptime example_now example_solver True
     example_store None)) = Some ''OPTIMAL''"
proof -
  have ch: "fst (run_optimization example_strptime example_now example_solver True example_store None)
     \<noteq> example_store"
    by code_simp
  have fe: "fst (example_solver (optimizer_model (connect example_store))) = FEASIBLE"
    by (simp add: example_solver_def)
  from persisted_reports_optimal [of example_strptime example_now example_solver True
      example_store None, THEN conjunct1] ch
  have "status_field (snd (run_optimization example_strptime example_now example_solver True
     example_store None)) = Some ''OPTIMAL''"
    by simp
  with ch fe show ?thesis by simp
qed

section \<open>Tasks that are canceled or in progress\<close>

text \<open>
  Claim C10. A task whose status is \<open>Canceled\<close> or \<open>In Progress\<close> is in the assembled task
  set and has its interval in the model; after a run that answers 200, its row is
  \<open>Scheduled\<close>, with start and end at the anchor plus the offsets of the assignment. So
  running the optimizer re-activates a canceled task.
\<close>

theorem canceled_rescheduled:
  assumes body: "request_data body = Inr data"
    and anchor: "parse_start_time strptime now (map_of data ''start_time'') = Inr t"
    and solve: "solver (optimizer_model (connect d)) = (st, sol)"
    and row: "row \<in> set (tasks d)"
    and stat: "status row = ''Canceled'' \<or> status row = ''In Progress''"
    and ok: "code (snd (run_optimization strptime now solver True d body)) = 200"
  shows "task_id row \<in> assembled_task_ids (connect d) \<and>
         (\<exists>dm. Interval (StartVar (task_id row)) dm (EndVar (task_id row))
                 \<in> set (constraints (optimizer_model (connect d)))) \<and>
         row\<lparr>start_time := Some (round_to_minute t + sol (StartVar (task_id row)) * 60000000),
             end_time := Some (round_to_minute t + sol (EndVar (task_id row)) * 60000000),
             status := ''Scheduled''\<rparr>
           \<in> set (tasks (fst (run_optimization strptime now solver True d body)))"
proof -
  let ?ids = "assembled_task_ids (connect d)" and ?a = "round_to_minute t"
  from stat have "status row \<noteq> ''Completed'' \<and> status row \<noteq> ''Scheduled''"
    by auto
  with row have mem: "task_id row \<in> ?ids"
    unfolding assembled_task_ids_eq by auto
  then have ne: "?ids \<noteq> {}" by auto
  note out = run_optimization_outcome [where solver = solver, OF body anchor solve]
  from ok ne have "(st = OPTIMAL \<or> st = FEASIBLE) \<and> materializable ?a sol ?ids"
    unfolding out by (auto simp: reply_def infeasible_response_def split: if_splits)
  with ne out have "tasks (fst (run_optimization strptime now solver True d body)) =
      map (persisted ?a sol ?ids) (tasks d)"
    by simp
  moreover from row have "persisted ?a sol ?ids row \<in> set (map (persisted ?a sol ?ids) (tasks d))"
    by simp
  moreover from mem have "persisted ?a sol ?ids row =
      row\<lparr>start_time := Some (?a + sol (StartVar (task_id row)) * 60000000),
          end_time := Some (?a + sol (EndVar (task_id row)) * 60000000),
          status := ''Scheduled''\<rparr>"
    by (simp add: persisted_def schedule_task_def)
  ultimately have "row\<lparr>start_time := Some (?a + sol (StartVar (task_id row)) * 60000000),
          end_time := Some (?a + sol (EndVar (task_id row)) * 60000000),
          status := ''Scheduled''\<rparr>
        \<in> set (tasks (fst (run_optimization strptime now solver True d body)))"
    by simp
  with mem model_interval_iff [of "task_id row" "connect d"] show ?thesis
    by simp
qed

theorem canceled_rescheduled_witness:
  "request_data None = Inr [] \<and>
   parse_start_time example_strptime example_now (map_of [] ''start_time'') =
     Inr 1699999980000000 \<and>
   example_solver (optimizer_model (connect example_store)) = (FEASIBLE, example_solution) \<and>
   \<lparr>task_id = 3, job_id = 2, task_name = ''paint'', duration_hours = 1,
    required_machine_id = 2, status = ''Canceled'', start_time = None, end_time = None\<rparr>
     \<in> set (tasks example_store) \<and>
   code (snd (run_optimization example_strptime example_now example_solver True
     example_store None)) = 200 \<and>
   3 \<in> assembled_task_ids (connect example_store) \<and>
   \<lparr>task_id = 3, job_id = 2, task_name = ''paint'', duration_hours = 1,
    required_machine_id = 2, status = ''Scheduled'',
    start_time = Some 1699999980000000, end_time = Some 1700003580000000\<rparr>
     \<in> set (tasks (fst (run_optimization example_strptime example_now example_solver True
           example_store None)))"
proof -
  let ?row = "\<lparr>task_id = 3, job_id = 2, task_name = ''paint'', duration_hours = 1,
    required_machine_id = 2, status = ''Canceled'', start_time = None, end_time = None\<rparr>"
  have body: "request_data None = Inr []"
    by (simp add: request_data_def)
  have anchor: "parse_start_time example_strptime example_now (map_of [] ''start_time'') =
      Inr 1699999980000000"
    by (simp add: parse_start_time_def round_to_minute_def example_now_def)
  have solve: "example_solver (optimizer_model (connect example_store)) =
      (FEASIBLE, example_solution)"
    by (simp add: example_solver_def)
  have row: "?row \<in> set (tasks example_store)"
    by (simp add: example_store_def)
  have stat: "status ?row = ''Canceled'' \<or> status ?row = ''In Progress''"
    by simp
  have ok: "code (snd (run_optimization example_strptime example_now example_solver True
     example_store None)) = 200"
    by code_simp
  have r: "round_to_minute 1699999980000000 = 1699999980000000"
    by (simp add: round_to_minute_def)
  note th = canceled_rescheduled [where solver = example_solver, OF body anchor solve row stat ok,
      unfolded r]
  from th have a: "3 \<in> assembled_task_ids (connect example_store)"
    by simp
  from th have b: "\<lparr>task_id = 3, job_id = 2, task_name = ''paint'', duration_hours = 1,
    required_machine_id = 2, status = ''Scheduled'',
    start_time = Some 1699999980000000, end_time = Some 1700003580000000\<rparr>
     \<in> set (tasks (fst (run_optimization example_strptime example_now example_solver True
           example_store None)))"
    by simp
  from body anchor solve row ok a b show ?thesis by simp
qed

end
